theory Spec2Isabelle
  imports Main
begin

section \<open>JavaScript values\<close>

text \<open>
  The values the observer and the watcher handle. Numbers are integers plus the one
  value the code treats specially, \<open>NaN\<close>. Every object, array, function or class instance
  is a reference \<open>JObj a\<close> into the object heap.
\<close>

datatype jsval =
    JUndefined
  | JNull
  | JBool bool
  | JNum int
  | JNaN
  | JStr string
  | JObj nat

text \<open>\<open>a === b\<close>: identity on references, equality on primitives, and \<open>NaN\<close> is not
  equal to itself.\<close>

fun strict_eq :: "jsval \<Rightarrow> jsval \<Rightarrow> bool" where
  "strict_eq JNaN b = False"
| "strict_eq a JNaN = False"
| "strict_eq a b = (a = b)"

section \<open>The store\<close>

text \<open>
  A \<open>Dep\<close> is identified with its \<open>id\<close> (unique by construction); a watcher is
  referred to by its address in \<open>watchers\<close>. The two \<open>Set\<close> objects and the two arrays
  of a watcher live in stores of their own (\<open>sets\<close>, \<open>arrs\<close>), since
  \<open>cleanupDeps\<close> swaps the references and then clears one of the objects.
\<close>

record watcher =
  vm :: nat
  expression :: string
  wid :: nat
  deep :: bool
  user :: bool
  lazy :: bool
  sync :: bool
  dirty :: bool
  active :: bool
  deps :: nat
  newDeps :: nat
  depIds :: nat
  newDepIds :: nat
  wvalue :: jsval

text \<open>Calls that leave the modelled code (user callbacks, the error channel, warnings,
  the scheduler, the \<open>customSetter\<close> and a setter defined outside the observer, with the
  object and the value it is called on) and the calls of \<open>dep.notify\<close> are recorded in a
  trace.\<close>

datatype event =
    HandleError jsval nat string
  | CallbackCall nat jsval jsval
  | QueueWatcher nat
  | Notify nat
  | Warn string
  | CustomSetterCall nat
  | SetterCall nat nat jsval

text \<open>What \<open>Object.prototype.toString\<close> and \<open>typeof\<close> tell about an object: a plain object
  or class instance, an array, a function, or something else (a date, a regular
  expression).\<close>

datatype objclass = ClsObject | ClsArray | ClsFunction | ClsOther

text \<open>An own property: a data property with its value and its \<open>enumerable\<close>,
  \<open>configurable\<close> and \<open>writable\<close> attributes; an accessor defined outside the observer
  with its optional getter and setter and its \<open>enumerable\<close> and \<open>configurable\<close>
  attributes; or the accessor pair installed by \<open>defineReactive\<close>, which refers to the
  variables its two closures share, with its \<open>enumerable\<close> and \<open>configurable\<close>
  attributes (both \<open>true\<close> when installed; \<open>Object.seal\<close>, \<open>Object.freeze\<close> or
  \<open>Object.defineProperty\<close> may change them later and leave the accessors in place).\<close>

datatype property =
    DataProp jsval bool bool bool
  | AccessorProp "nat option" "nat option" bool bool
  | ReactiveProp nat bool bool

record obj =
  cls :: objclass
  isVNode :: bool
  isVue :: bool
  extensible :: bool
  ob :: "nat option"
  props :: "(string \<times> property) list"
  elems :: "jsval list"
  augmented :: bool

record observer =
  ob_value :: nat
  ob_dep :: nat
  vmCount :: nat

text \<open>The accessor functions \<open>defineReactive\<close> finds on a property: functions defined
  outside the observer, or the \<open>reactiveGetter\<close> and \<open>reactiveSetter\<close> of an earlier
  \<open>defineReactive\<close> on the same key.\<close>

datatype getref = UserGetter nat | ReactiveGetter nat

datatype setref = UserSetter nat | ReactiveSetter nat

text \<open>The variables shared by the \<open>reactiveGetter\<close> and \<open>reactiveSetter\<close> of one call of
  \<open>defineReactive\<close>. \<open>c_childOb\<close> is \<open>None\<close> when \<open>childOb\<close> is \<open>false\<close> or \<open>undefined\<close>.\<close>

record closure =
  c_obj :: nat
  c_key :: string
  c_val :: jsval
  c_childOb :: "nat option"
  c_getter :: "getref option"
  c_setter :: "setref option"
  c_customSetter :: "nat option"
  c_shallow :: bool
  c_dep :: nat

record world =
  subs :: "nat \<Rightarrow> nat list"
  depUid :: nat
  watchers :: "nat \<Rightarrow> watcher"
  nextWatcher :: nat
  uid :: nat
  sets :: "nat \<Rightarrow> nat set"
  nextSet :: nat
  arrs :: "nat \<Rightarrow> nat list"
  nextArr :: nat
  targetStack :: "nat list"
  vmWatcher :: "nat \<Rightarrow> nat option"
  vmWatchers :: "nat \<Rightarrow> nat list"
  vmBeingDestroyed :: "nat \<Rightarrow> bool"
  objs :: "nat \<Rightarrow> obj"
  observers :: "nat \<Rightarrow> observer"
  nextObserver :: nat
  closures :: "nat \<Rightarrow> closure"
  nextClosure :: nat
  shouldObserve :: bool
  trace :: "event list"

text \<open>
  What the modelled code calls but does not define: the evaluator and the callback of each
  watcher (user code), \<open>traverse\<close>, the \<open>remove\<close> helper, whether \<open>parsePath\<close> accepts a
  path, getters defined outside the observer, the build and platform flags, what a key
  finds on the prototype chain of an object, which keys are valid array indices
  (\<open>isValidArrayIndex\<close>), and the intercepted array methods (\<open>arrayMethods\<close>). An evaluator is given by the Deps it reads
  (each read calls \<open>dep.depend()\<close>) and by what it returns (\<open>Inr\<close>) or throws (\<open>Inl\<close>); a
  callback by what it throws, if anything. User code does not re-enter the observer.
\<close>

record env =
  evaluator :: "nat \<Rightarrow> world \<Rightarrow> nat list \<times> (jsval + jsval)"
  traverse :: "jsval \<Rightarrow> world \<Rightarrow> nat list"
  callback :: "nat \<Rightarrow> jsval \<Rightarrow> jsval \<Rightarrow> world \<Rightarrow> jsval option"
  remove :: "nat list \<Rightarrow> nat \<Rightarrow> nat list"
  parsePath :: "string \<Rightarrow> bool"
  origGetter :: "nat \<Rightarrow> world \<Rightarrow> jsval"
  production :: bool
  serverRendering :: bool
  hasProto :: bool
  inObjectPrototype :: "string \<Rightarrow> bool"
  inPrototypeChain :: "obj \<Rightarrow> string \<Rightarrow> bool"
  protoValue :: "obj \<Rightarrow> string \<Rightarrow> jsval"
  arrayIndex :: "string \<Rightarrow> nat option"
  arrayKeys :: "string list"
  arrayMethod :: "string \<Rightarrow> jsval"

text \<open>Modelled from the spec: \<open>isObject\<close> of \<open>../util/index\<close> is not among the sources;
  the spec speaks of "an object/array-typed value". A function is not one (its \<open>typeof\<close>
  is not \<open>object\<close>).\<close>

definition isObject :: "world \<Rightarrow> jsval \<Rightarrow> bool" where
  "isObject s v = (case v of JObj a \<Rightarrow> cls (objs s a) \<noteq> ClsFunction | _ \<Rightarrow> False)"

section \<open>Dep\<close>

text \<open>Modelled from the spec: \<open>./dep\<close> is not among the sources. The subscriber set is
  ordered and without duplicates; \<open>addSub\<close> and \<open>removeSub\<close> are the idempotent add and
  remove of section 4.1.\<close>

definition addSub :: "nat \<Rightarrow> nat \<Rightarrow> world \<Rightarrow> world" where
  "addSub d w s =
     (if w \<in> set (subs s d) then s else s\<lparr>subs := (subs s)(d := subs s d @ [w])\<rparr>)"

definition removeSub :: "nat \<Rightarrow> nat \<Rightarrow> world \<Rightarrow> world" where
  "removeSub d w s = s\<lparr>subs := (subs s)(d := removeAll w (subs s d))\<rparr>"

text \<open>Modelled from the spec: the active-computation stack of sections 4.3 and 9;
  \<open>Dep.target\<close> is its top.\<close>

definition pushTarget :: "nat \<Rightarrow> world \<Rightarrow> world" where
  "pushTarget w s = s\<lparr>targetStack := w # targetStack s\<rparr>"

definition popTarget :: "world \<Rightarrow> world" where
  "popTarget s = s\<lparr>targetStack := tl (targetStack s)\<rparr>"

text \<open>Modelled from the spec: \<open>handleError\<close> and \<open>warn\<close> report and return; the scheduler's
  \<open>queueWatcher\<close> is recorded as the hand-off it is.\<close>

definition emit :: "event \<Rightarrow> world \<Rightarrow> world" where
  "emit e s = s\<lparr>trace := trace s @ [e]\<rparr>"

definition handleError :: "jsval \<Rightarrow> nat \<Rightarrow> string \<Rightarrow> world \<Rightarrow> world" where
  "handleError e v info s = emit (HandleError e v info) s"

definition warn :: "string \<Rightarrow> world \<Rightarrow> world" where
  "warn msg s = emit (Warn msg) s"

definition queueWatcher :: "nat \<Rightarrow> world \<Rightarrow> world" where
  "queueWatcher w s = emit (QueueWatcher w) s"

section \<open>Watcher\<close>

definition addDep :: "nat \<Rightarrow> nat \<Rightarrow> world \<Rightarrow> world" where
  "addDep w d s =
     (let W = watchers s w in
      if d \<notin> sets s (newDepIds W) then
        let s1 = s\<lparr>sets := (sets s)(newDepIds W := insert d (sets s (newDepIds W)))\<rparr>;
            s2 = s1\<lparr>arrs := (arrs s1)(newDeps W := arrs s1 (newDeps W) @ [d])\<rparr>
        in if d \<notin> sets s2 (depIds W) then addSub d w s2 else s2
      else s)"

text \<open>Modelled from the spec: \<open>dep.depend()\<close>, the \<open>record()\<close> of section 4.1.\<close>

definition depend :: "nat \<Rightarrow> world \<Rightarrow> world" where
  "depend d s = (case targetStack s of [] \<Rightarrow> s | t # ts \<Rightarrow> addDep t d s)"

definition cleanupDeps :: "nat \<Rightarrow> world \<Rightarrow> world" where
  "cleanupDeps w s =
     (let W = watchers s w;
          s1 = fold (\<lambda>d s'. if d \<notin> sets s' (newDepIds W) then removeSub d w s' else s')
                 (rev (arrs s (deps W))) s;
          tmp = depIds W;
          W1 = W\<lparr>depIds := newDepIds W\<rparr>;
          W2 = W1\<lparr>newDepIds := tmp\<rparr>;
          s2 = s1\<lparr>sets := (sets s1)(newDepIds W2 := {})\<rparr>;
          tmp' = deps W2;
          W3 = W2\<lparr>deps := newDeps W2\<rparr>;
          W4 = W3\<lparr>newDeps := tmp'\<rparr>;
          s3 = s2\<lparr>arrs := (arrs s2)(newDeps W4 := [])\<rparr>
      in s3\<lparr>watchers := (watchers s3)(w := W4)\<rparr>)"

definition getterLabel :: "string \<Rightarrow> string" where
  "getterLabel e = ''getter for watcher '' @ [CHR 0x22] @ e @ [CHR 0x22]"

definition callbackLabel :: "string \<Rightarrow> string" where
  "callbackLabel e = ''callback for watcher '' @ [CHR 0x22] @ e @ [CHR 0x22]"

text \<open>\<open>get\<close>: the result is \<open>Inl e\<close> when \<open>e\<close> is thrown to the caller, \<open>Inr v\<close> when \<open>v\<close> is
  returned. The \<open>finally\<close> block runs on every path.\<close>

definition get :: "env \<Rightarrow> nat \<Rightarrow> world \<Rightarrow> (jsval + jsval) \<times> world" where
  "get E w s =
     (let s1 = pushTarget w s;
          W = watchers s1 w;
          (reads, res) = evaluator E w s1;
          s2 = fold depend reads s1;
          val = (case res of Inr v \<Rightarrow> v | Inl e \<Rightarrow> JUndefined);
          s3 = (case res of
                  Inr v \<Rightarrow> s2
                | Inl e \<Rightarrow> if user W then handleError e (vm W) (getterLabel (expression W)) s2
                           else s2);
          s4 = (if deep W then fold depend (traverse E val s3) s3 else s3);
          s5 = popTarget s4;
          s6 = cleanupDeps w s5
      in (case res of
            Inr v \<Rightarrow> (Inr val, s6)
          | Inl e \<Rightarrow> if user W then (Inr val, s6) else (Inl e, s6)))"

definition run :: "env \<Rightarrow> nat \<Rightarrow> world \<Rightarrow> (jsval + unit) \<times> world" where
  "run E w s =
     (if active (watchers s w) then
        (case get E w s of
           (Inl e, s1) \<Rightarrow> (Inl e, s1)
         | (Inr val, s1) \<Rightarrow>
             (let W = watchers s1 w in
              if \<not> strict_eq val (wvalue W) \<or> isObject s1 val \<or> deep W then
                (let oldValue = wvalue W;
                     s2 = s1\<lparr>watchers := (watchers s1)(w := W\<lparr>wvalue := val\<rparr>)\<rparr>;
                     s3 = emit (CallbackCall w val oldValue) s2
                 in if user W then
                      (case callback E w val oldValue s2 of
                         None \<Rightarrow> (Inr (), s3)
                       | Some e \<Rightarrow>
                           (Inr (), handleError e (vm W) (callbackLabel (expression W)) s3))
                    else
                      (case callback E w val oldValue s2 of
                         None \<Rightarrow> (Inr (), s3)
                       | Some e \<Rightarrow> (Inl e, s3)))
              else (Inr (), s1)))
      else (Inr (), s))"

definition update :: "env \<Rightarrow> nat \<Rightarrow> world \<Rightarrow> (jsval + unit) \<times> world" where
  "update E w s =
     (let W = watchers s w in
      if lazy W then (Inr (), s\<lparr>watchers := (watchers s)(w := W\<lparr>dirty := True\<rparr>)\<rparr>)
      else if sync W then run E w s
      else (Inr (), queueWatcher w s))"

definition evaluate :: "env \<Rightarrow> nat \<Rightarrow> world \<Rightarrow> (jsval + unit) \<times> world" where
  "evaluate E w s =
     (case get E w s of
        (Inl e, s1) \<Rightarrow> (Inl e, s1)
      | (Inr v, s1) \<Rightarrow>
          (let W = watchers s1 w;
               s2 = s1\<lparr>watchers := (watchers s1)(w := W\<lparr>wvalue := v\<rparr>)\<rparr>;
               W' = watchers s2 w
           in (Inr (), s2\<lparr>watchers := (watchers s2)(w := W'\<lparr>dirty := False\<rparr>)\<rparr>)))"

definition teardown :: "env \<Rightarrow> nat \<Rightarrow> world \<Rightarrow> world" where
  "teardown E w s =
     (let W = watchers s w in
      if active W then
        (let s1 = (if \<not> vmBeingDestroyed s (vm W)
                   then s\<lparr>vmWatchers := (vmWatchers s)(vm W := remove E (vmWatchers s (vm W)) w)\<rparr>
                   else s);
             s2 = fold (\<lambda>d s'. removeSub d w s') (rev (arrs s1 (deps W))) s1
         in s2\<lparr>watchers := (watchers s2)(w := (watchers s2 w)\<lparr>active := False\<rparr>)\<rparr>)
      else s)"

text \<open>Modelled from the spec: \<open>dep.notify()\<close> calls \<open>update()\<close> on every subscriber, in
  registration order, over a snapshot of the list (section 4.1). An exception thrown by
  an update ends the pass.\<close>

fun updateAll :: "env \<Rightarrow> nat list \<Rightarrow> world \<Rightarrow> (jsval + unit) \<times> world" where
  "updateAll E [] s = (Inr (), s)"
| "updateAll E (w # ws) s =
     (case update E w s of
        (Inl e, s1) \<Rightarrow> (Inl e, s1)
      | (Inr u, s1) \<Rightarrow> updateAll E ws s1)"

definition notify :: "env \<Rightarrow> nat \<Rightarrow> world \<Rightarrow> (jsval + unit) \<times> world" where
  "notify E d s = updateAll E (subs s d) (emit (Notify d) s)"


text \<open>The constructor. The first argument of \<open>new Watcher\<close> after the instance is a function
  (given by its source text) or a path; the evaluator it yields is \<open>evaluator E\<close> at the new
  watcher's address (for a path \<open>parsePath\<close> rejects that is \<open>noop\<close>, which reads nothing
  and returns \<open>undefined\<close>). The \<open>before\<close> hook of the options is used by the scheduler
  only.\<close>

datatype expOrFn = Fn string | Path string

fun toString :: "expOrFn \<Rightarrow> string" where
  "toString (Fn src) = src"
| "toString (Path p) = p"

record watcherOptions =
  o_deep :: bool
  o_user :: bool
  o_lazy :: bool
  o_sync :: bool

definition failedPathWarning :: "string \<Rightarrow> string" where
  "failedPathWarning p =
     ''Failed watching path: '' @ [CHR 0x22] @ p @ [CHR 0x22] @ '' '' @
     ''Watcher only accepts simple dot-delimited paths. '' @
     ''For full control, use a function instead.''"

definition newWatcher ::
  "env \<Rightarrow> nat \<Rightarrow> expOrFn \<Rightarrow> watcherOptions option \<Rightarrow> bool \<Rightarrow> world \<Rightarrow> (jsval + nat) \<times> world"
where
  "newWatcher E v e options isRenderWatcher s =
     (let w = nextWatcher s;
          s1 = s\<lparr>nextWatcher := Suc w\<rparr>;
          s2 = (if isRenderWatcher then s1\<lparr>vmWatcher := (vmWatcher s1)(v := Some w)\<rparr> else s1);
          s3 = s2\<lparr>vmWatchers := (vmWatchers s2)(v := vmWatchers s2 v @ [w])\<rparr>;
          opt = (case options of
                   Some given \<Rightarrow> given
                 | None \<Rightarrow> \<lparr>o_deep = False, o_user = False, o_lazy = False, o_sync = False\<rparr>);
          s4 = s3\<lparr>uid := Suc (uid s3)\<rparr>;
          a1 = nextArr s4;
          a2 = Suc a1;
          s5 = s4\<lparr>arrs := (arrs s4)(a1 := [], a2 := []), nextArr := Suc a2\<rparr>;
          b1 = nextSet s5;
          b2 = Suc b1;
          s6 = s5\<lparr>sets := (sets s5)(b1 := {}, b2 := {}), nextSet := Suc b2\<rparr>;
          W = \<lparr>vm = v,
               expression = (if production E then [] else toString e),
               wid = uid s6,
               deep = o_deep opt, user = o_user opt, lazy = o_lazy opt, sync = o_sync opt,
               dirty = o_lazy opt, active = True,
               deps = a1, newDeps = a2, depIds = b1, newDepIds = b2,
               wvalue = JUndefined\<rparr>;
          s7 = s6\<lparr>watchers := (watchers s6)(w := W)\<rparr>;
          s8 = (case e of
                  Fn src \<Rightarrow> s7
                | Path p \<Rightarrow>
                    if parsePath E p \<or> production E then s7 else warn (failedPathWarning p) s7)
      in if lazy W then (Inr w, s8)
         else (case get E w s8 of
                 (Inl x, s9) \<Rightarrow> (Inl x, s9)
               | (Inr val, s9) \<Rightarrow>
                   (Inr w, s9\<lparr>watchers := (watchers s9)(w := (watchers s9 w)\<lparr>wvalue := val\<rparr>)\<rparr>)))"

section \<open>Observer\<close>

text \<open>A computation of the observer: \<open>None\<close> when the recursion bound is exhausted,
  otherwise the state reached together with the value returned (\<open>Inr\<close>) or the exception
  thrown (\<open>Inl\<close>).\<close>

type_synonym 'a comp = "((jsval + 'a) \<times> world) option"

text \<open>Modelled from the spec: \<open>new Dep()\<close> takes the next id and starts with no
  subscribers.\<close>

definition newDep :: "world \<Rightarrow> nat \<times> world" where
  "newDep s = (depUid s, s\<lparr>depUid := Suc (depUid s), subs := (subs s)(depUid s := [])\<rparr>)"

text \<open>A \<open>TypeError\<close>, as thrown by the engine.\<close>

definition typeError :: jsval where
  "typeError = JStr ''TypeError''"

fun enumerable :: "property \<Rightarrow> bool" where
  "enumerable (DataProp v en cf wr) = en"
| "enumerable (AccessorProp g st en cf) = en"
| "enumerable (ReactiveProp c en cf) = en"

fun configurable :: "property \<Rightarrow> bool" where
  "configurable (DataProp v en cf wr) = cf"
| "configurable (AccessorProp g st en cf) = cf"
| "configurable (ReactiveProp c en cf) = cf"

text \<open>\<open>property && property.get\<close> and \<open>property && property.set\<close>.\<close>

fun getterOf :: "property option \<Rightarrow> getref option" where
  "getterOf (Some (AccessorProp g st en cf)) = map_option UserGetter g"
| "getterOf (Some (ReactiveProp c en cf)) = Some (ReactiveGetter c)"
| "getterOf p = None"

fun setterOf :: "property option \<Rightarrow> setref option" where
  "setterOf (Some (AccessorProp g st en cf)) = map_option UserSetter st"
| "setterOf (Some (ReactiveProp c en cf)) = Some (ReactiveSetter c)"
| "setterOf p = None"

text \<open>\<open>Object.keys\<close>: the enumerable own keys, in the order of the property list.\<close>

definition keysOf :: "obj \<Rightarrow> string list" where
  "keysOf x = map fst (filter (\<lambda>kp. enumerable (snd kp)) (props x))"

text \<open>\<open>Object.defineProperty\<close> on a key: an existing key keeps its place, a new one goes
  last.\<close>

fun updateProp :: "string \<Rightarrow> property \<Rightarrow> (string \<times> property) list \<Rightarrow> (string \<times> property) list" where
  "updateProp k p [] = [(k, p)]"
| "updateProp k p ((k', q) # ps) = (if k = k' then (k, p) # ps else (k', q) # updateProp k p ps)"

definition isArray :: "world \<Rightarrow> jsval \<Rightarrow> bool" where
  "isArray s v = (case v of JObj a \<Rightarrow> cls (objs s a) = ClsArray | _ \<Rightarrow> False)"

definition elemsOf :: "world \<Rightarrow> jsval \<Rightarrow> jsval list" where
  "elemsOf s v = (case v of JObj a \<Rightarrow> elems (objs s a) | _ \<Rightarrow> [])"

definition instanceofVNode :: "world \<Rightarrow> jsval \<Rightarrow> bool" where
  "instanceofVNode s v = (case v of JObj a \<Rightarrow> isVNode (objs s a) | _ \<Rightarrow> False)"

text \<open>Modelled from the spec: \<open>def(value, '__ob__', this)\<close> tags the value with the hidden
  back-reference to its wrapper.\<close>

definition def_ob :: "nat \<Rightarrow> nat \<Rightarrow> world \<Rightarrow> world" where
  "def_ob a k s = s\<lparr>objs := (objs s)(a := (objs s a)\<lparr>ob := Some k\<rparr>)\<rparr>"

definition protoAugment :: "nat \<Rightarrow> world \<Rightarrow> world" where
  "protoAugment a s = s\<lparr>objs := (objs s)(a := (objs s a)\<lparr>augmented := True\<rparr>)\<rparr>"

text \<open>\<open>copyAugment\<close> defines each intercepted method as a hidden own property.\<close>

fun copyAugment :: "env \<Rightarrow> nat \<Rightarrow> string list \<Rightarrow> world \<Rightarrow> world" where
  "copyAugment E a [] s = s"
| "copyAugment E a (k # ks) s =
     copyAugment E a ks
       (s\<lparr>objs := (objs s)(a := (objs s a)
           \<lparr>props := updateProp k (DataProp (arrayMethod E k) False True True) (props (objs s a)),
            augmented := True\<rparr>)\<rparr>)"

text \<open>
  \<open>observe\<close>, \<open>defineReactive\<close>, the two accessors it installs and \<open>dependArray\<close> call one
  another. Each is written over the functions it may call (\<open>callees\<close>); \<open>level\<close> ties
  them together, bounding the depth of nested calls.
\<close>

record callees =
  observeC :: "jsval \<Rightarrow> bool \<Rightarrow> world \<Rightarrow> (nat option) comp"
  defineReactiveC :: "nat \<Rightarrow> string \<Rightarrow> jsval option \<Rightarrow> nat option \<Rightarrow> bool \<Rightarrow> world \<Rightarrow> unit comp"
  reactiveGetterC :: "nat \<Rightarrow> world \<Rightarrow> jsval comp"
  reactiveSetterC :: "nat \<Rightarrow> jsval \<Rightarrow> world \<Rightarrow> unit comp"
  dependArrayC :: "jsval \<Rightarrow> world \<Rightarrow> unit comp"

text \<open>\<open>Observer.walk\<close>, over the keys \<open>Object.keys(obj)\<close> gave.\<close>

fun walk :: "callees \<Rightarrow> nat \<Rightarrow> string list \<Rightarrow> world \<Rightarrow> unit comp" where
  "walk C a [] s = Some (Inr (), s)"
| "walk C a (k # ks) s =
     (case defineReactiveC C a k None None False s of
        None \<Rightarrow> None
      | Some (Inl e, s1) \<Rightarrow> Some (Inl e, s1)
      | Some (Inr u, s1) \<Rightarrow> walk C a ks s1)"

fun observeArray :: "callees \<Rightarrow> jsval list \<Rightarrow> world \<Rightarrow> unit comp" where
  "observeArray C [] s = Some (Inr (), s)"
| "observeArray C (x # xs) s =
     (case observeC C x False s of
        None \<Rightarrow> None
      | Some (Inl e, s1) \<Rightarrow> Some (Inl e, s1)
      | Some (Inr r, s1) \<Rightarrow> observeArray C xs s1)"

text \<open>The constructor of \<open>Observer\<close>; it returns the new instance.\<close>

definition newObserver :: "callees \<Rightarrow> env \<Rightarrow> nat \<Rightarrow> world \<Rightarrow> nat comp" where
  "newObserver C E a s =
     (let k = nextObserver s;
          (d, s1) = newDep s;
          s2 = s1\<lparr>observers := (observers s1)(k := \<lparr>ob_value = a, ob_dep = d, vmCount = 0\<rparr>),
                 nextObserver := Suc k\<rparr>;
          s3 = def_ob a k s2
      in if cls (objs s3 a) = ClsArray then
           (let s4 = (if hasProto E then protoAugment a s3 else copyAugment E a (arrayKeys E) s3)
            in case observeArray C (elems (objs s4 a)) s4 of
                 None \<Rightarrow> None
               | Some (Inl e, s5) \<Rightarrow> Some (Inl e, s5)
               | Some (Inr u, s5) \<Rightarrow> Some (Inr k, s5))
         else
           (case walk C a (keysOf (objs s3 a)) s3 of
              None \<Rightarrow> None
            | Some (Inl e, s5) \<Rightarrow> Some (Inl e, s5)
            | Some (Inr u, s5) \<Rightarrow> Some (Inr k, s5)))"

definition observe_body :: "callees \<Rightarrow> env \<Rightarrow> jsval \<Rightarrow> bool \<Rightarrow> world \<Rightarrow> (nat option) comp" where
  "observe_body C E val asRootData s =
     (if \<not> isObject s val \<or> instanceofVNode s val then Some (Inr None, s)
      else
        (case val of
           JObj a \<Rightarrow>
             (case (case ob (objs s a) of
                      Some k \<Rightarrow> Some (Inr (Some k), s)
                    | None \<Rightarrow>
                        if shouldObserve s \<and> \<not> serverRendering E \<and>
                           (cls (objs s a) = ClsArray \<or> cls (objs s a) = ClsObject) \<and>
                           extensible (objs s a) \<and> \<not> isVue (objs s a)
                        then (case newObserver C E a s of
                                None \<Rightarrow> None
                              | Some (Inl e, s1) \<Rightarrow> Some (Inl e, s1)
                              | Some (Inr k, s1) \<Rightarrow> Some (Inr (Some k), s1))
                        else Some (Inr None, s)) of
                None \<Rightarrow> None
              | Some (Inl e, s1) \<Rightarrow> Some (Inl e, s1)
              | Some (Inr None, s1) \<Rightarrow> Some (Inr None, s1)
              | Some (Inr (Some k), s1) \<Rightarrow>
                  if asRootData
                  then Some (Inr (Some k),
                         s1\<lparr>observers := (observers s1)
                              (k := (observers s1 k)\<lparr>vmCount := Suc (vmCount (observers s1 k))\<rparr>)\<rparr>)
                  else Some (Inr (Some k), s1))
         | _ \<Rightarrow> Some (Inr None, s)))"

text \<open>\<open>getter ? getter.call(obj) : val\<close>, in the closure \<open>c\<close>.\<close>

definition currentValue :: "callees \<Rightarrow> env \<Rightarrow> nat \<Rightarrow> world \<Rightarrow> jsval comp" where
  "currentValue C E c s =
     (case c_getter (closures s c) of
        None \<Rightarrow> Some (Inr (c_val (closures s c)), s)
      | Some (UserGetter f) \<Rightarrow> Some (Inr (origGetter E f s), s)
      | Some (ReactiveGetter c') \<Rightarrow> reactiveGetterC C c' s)"

text \<open>\<open>if ((!getter || setter) && arguments.length === 2) val = obj[key]\<close>, where
  \<open>property\<close> is the own property the key has: the initial \<open>val\<close>. \<open>valArg\<close> is \<open>None\<close> for a
  call with two arguments.\<close>

definition readInitial ::
  "callees \<Rightarrow> env \<Rightarrow> nat \<Rightarrow> string \<Rightarrow> property option \<Rightarrow> jsval option \<Rightarrow> world \<Rightarrow> jsval comp"
where
  "readInitial C E a key property valArg s =
     (if (getterOf property = None \<or> setterOf property \<noteq> None) \<and> valArg = None then
        (case property of
           Some (DataProp v en cf wr) \<Rightarrow> Some (Inr v, s)
         | Some (AccessorProp g st en cf) \<Rightarrow>
             (case g of
                None \<Rightarrow> Some (Inr JUndefined, s)
              | Some f \<Rightarrow> Some (Inr (origGetter E f s), s))
         | Some (ReactiveProp c en cf) \<Rightarrow> reactiveGetterC C c s
         | None \<Rightarrow> Some (Inr (protoValue E (objs s a) key), s))
      else Some (Inr (case valArg of Some v \<Rightarrow> v | None \<Rightarrow> JUndefined), s))"

text \<open>\<open>Object.defineProperty(obj, key, {enumerable: true, configurable: true, get, set})\<close>:
  the closure \<open>c\<close> holds the variables the two accessors share. Defining a new key on a
  non-extensible object throws.\<close>

definition installAccessors ::
  "nat \<Rightarrow> string \<Rightarrow> property option \<Rightarrow> jsval \<Rightarrow> nat option \<Rightarrow> nat option \<Rightarrow> bool \<Rightarrow> nat \<Rightarrow>
   world \<Rightarrow> unit comp"
where
  "installAccessors a key property val childOb customSetter shallow d s =
     (if property = None \<and> \<not> extensible (objs s a) then Some (Inl typeError, s)
      else
        (let c = nextClosure s;
             s1 = s\<lparr>closures := (closures s)
                    (c := \<lparr>c_obj = a, c_key = key, c_val = val,
                           c_childOb = childOb, c_getter = getterOf property,
                           c_setter = setterOf property, c_customSetter = customSetter,
                           c_shallow = shallow, c_dep = d\<rparr>),
                  nextClosure := Suc c\<rparr>
         in Some (Inr (),
              s1\<lparr>objs := (objs s1)(a := (objs s1 a)
                   \<lparr>props := updateProp key (ReactiveProp c True True) (props (objs s1 a))\<rparr>)\<rparr>)))"

text \<open>\<open>defineReactive(obj, key, val, customSetter, shallow)\<close>.\<close>

definition defineReactive_body ::
  "callees \<Rightarrow> env \<Rightarrow> nat \<Rightarrow> string \<Rightarrow> jsval option \<Rightarrow> nat option \<Rightarrow> bool \<Rightarrow> world \<Rightarrow> unit comp"
where
  "defineReactive_body C E a key valArg customSetter shallow s =
     (let (d, s1) = newDep s;
          property = map_of (props (objs s1 a)) key
      in if (case property of Some p \<Rightarrow> \<not> configurable p | None \<Rightarrow> False) then Some (Inr (), s1)
         else
           (case readInitial C E a key property valArg s1 of
              None \<Rightarrow> None
            | Some (Inl e, s2) \<Rightarrow> Some (Inl e, s2)
            | Some (Inr val, s2) \<Rightarrow>
                (case (if shallow then Some (Inr None, s2) else observeC C val False s2) of
                   None \<Rightarrow> None
                 | Some (Inl e, s3) \<Rightarrow> Some (Inl e, s3)
                 | Some (Inr childOb, s3) \<Rightarrow>
                     installAccessors a key property val childOb customSetter shallow d s3)))"

definition reactiveGetter_body :: "callees \<Rightarrow> env \<Rightarrow> nat \<Rightarrow> world \<Rightarrow> jsval comp" where
  "reactiveGetter_body C E c s =
     (case currentValue C E c s of
        None \<Rightarrow> None
      | Some (Inl e, s1) \<Rightarrow> Some (Inl e, s1)
      | Some (Inr val, s1) \<Rightarrow>
          if targetStack s1 \<noteq> [] then
            (let s2 = depend (c_dep (closures s1 c)) s1
             in case c_childOb (closures s2 c) of
                  None \<Rightarrow> Some (Inr val, s2)
                | Some k \<Rightarrow>
                    (let s3 = depend (ob_dep (observers s2 k)) s2
                     in if isArray s3 val then
                          (case dependArrayC C val s3 of
                             None \<Rightarrow> None
                           | Some (Inl e, s4) \<Rightarrow> Some (Inl e, s4)
                           | Some (Inr u, s4) \<Rightarrow> Some (Inr val, s4))
                        else Some (Inr val, s3)))
          else Some (Inr val, s1))"

text \<open>The steps of \<open>reactiveSetter\<close> after the comparison: the call of \<open>customSetter\<close>
  outside production builds, the store (\<open>setter.call(obj, newVal)\<close> or \<open>val = newVal\<close>) and
  \<open>!shallow && observe(newVal)\<close>.\<close>

definition callCustomSetter :: "env \<Rightarrow> nat \<Rightarrow> world \<Rightarrow> world" where
  "callCustomSetter E c s =
     (case c_customSetter (closures s c) of
        Some f \<Rightarrow> if \<not> production E then emit (CustomSetterCall f) s else s
      | None \<Rightarrow> s)"

definition storeNew :: "callees \<Rightarrow> nat \<Rightarrow> jsval \<Rightarrow> world \<Rightarrow> unit comp" where
  "storeNew C c newVal s =
     (case c_setter (closures s c) of
        Some (UserSetter f) \<Rightarrow> Some (Inr (), emit (SetterCall f (c_obj (closures s c)) newVal) s)
      | Some (ReactiveSetter c') \<Rightarrow> reactiveSetterC C c' newVal s
      | None \<Rightarrow> Some (Inr (), s\<lparr>closures := (closures s)(c := (closures s c)\<lparr>c_val := newVal\<rparr>)\<rparr>))"

definition wrapChild :: "callees \<Rightarrow> nat \<Rightarrow> jsval \<Rightarrow> world \<Rightarrow> (nat option) comp" where
  "wrapChild C c newVal s =
     (if c_shallow (closures s c) then Some (Inr None, s) else observeC C newVal False s)"

definition reactiveSetter_body :: "callees \<Rightarrow> env \<Rightarrow> nat \<Rightarrow> jsval \<Rightarrow> world \<Rightarrow> unit comp" where
  "reactiveSetter_body C E c newVal s =
     (case currentValue C E c s of
        None \<Rightarrow> None
      | Some (Inl e, s1) \<Rightarrow> Some (Inl e, s1)
      | Some (Inr val, s1) \<Rightarrow>
          if strict_eq newVal val \<or> (\<not> strict_eq newVal newVal \<and> \<not> strict_eq val val)
          then Some (Inr (), s1)
          else
            (let s2 = callCustomSetter E c s1
             in if c_getter (closures s2 c) \<noteq> None \<and> c_setter (closures s2 c) = None
                then Some (Inr (), s2)
                else
                  (case storeNew C c newVal s2 of
                     None \<Rightarrow> None
                   | Some (Inl e, s3) \<Rightarrow> Some (Inl e, s3)
                   | Some (Inr u, s3) \<Rightarrow>
                       (case wrapChild C c newVal s3 of
                          None \<Rightarrow> None
                        | Some (Inl e, s4) \<Rightarrow> Some (Inl e, s4)
                        | Some (Inr childOb, s4) \<Rightarrow>
                            Some (notify E (c_dep (closures s4 c))
                                    (s4\<lparr>closures := (closures s4)
                                          (c := (closures s4 c)\<lparr>c_childOb := childOb\<rparr>)\<rparr>))))))"

text \<open>The loop of \<open>dependArray\<close> over the elements of the array.\<close>

fun dependElems :: "callees \<Rightarrow> jsval list \<Rightarrow> world \<Rightarrow> unit comp" where
  "dependElems C [] s = Some (Inr (), s)"
| "dependElems C (e # es) s =
     (let s1 = (case e of
                  JObj x \<Rightarrow>
                    (case ob (objs s x) of
                       Some k \<Rightarrow> depend (ob_dep (observers s k)) s
                     | None \<Rightarrow> s)
                | _ \<Rightarrow> s)
      in case (if isArray s1 e then dependArrayC C e s1 else Some (Inr (), s1)) of
           None \<Rightarrow> None
         | Some (Inl x, s2) \<Rightarrow> Some (Inl x, s2)
         | Some (Inr u, s2) \<Rightarrow> dependElems C es s2)"

definition dependArray_body :: "callees \<Rightarrow> jsval \<Rightarrow> world \<Rightarrow> unit comp" where
  "dependArray_body C val s = dependElems C (elemsOf s val) s"

primrec level :: "nat \<Rightarrow> env \<Rightarrow> callees" where
  "level 0 E =
     \<lparr>observeC = (\<lambda>val asRootData s. None),
      defineReactiveC = (\<lambda>a key valArg customSetter shallow s. None),
      reactiveGetterC = (\<lambda>c s. None),
      reactiveSetterC = (\<lambda>c newVal s. None),
      dependArrayC = (\<lambda>val s. None)\<rparr>"
| "level (Suc n) E =
     \<lparr>observeC = observe_body (level n E) E,
      defineReactiveC = defineReactive_body (level n E) E,
      reactiveGetterC = reactiveGetter_body (level n E) E,
      reactiveSetterC = reactiveSetter_body (level n E) E,
      dependArrayC = dependArray_body (level n E)\<rparr>"

definition observe :: "nat \<Rightarrow> env \<Rightarrow> jsval \<Rightarrow> bool \<Rightarrow> world \<Rightarrow> (nat option) comp" where
  "observe n E = observeC (level n E)"

definition defineReactive ::
  "nat \<Rightarrow> env \<Rightarrow> nat \<Rightarrow> string \<Rightarrow> jsval option \<Rightarrow> nat option \<Rightarrow> bool \<Rightarrow> world \<Rightarrow> unit comp"
where
  "defineReactive n E = defineReactiveC (level n E)"

definition reactiveGetter :: "nat \<Rightarrow> env \<Rightarrow> nat \<Rightarrow> world \<Rightarrow> jsval comp" where
  "reactiveGetter n E = reactiveGetterC (level n E)"

definition reactiveSetter :: "nat \<Rightarrow> env \<Rightarrow> nat \<Rightarrow> jsval \<Rightarrow> world \<Rightarrow> unit comp" where
  "reactiveSetter n E = reactiveSetterC (level n E)"

section \<open>Adding a property\<close>

text \<open>\<open>key in target\<close>: an own property, or something found on the prototype chain.\<close>

definition keyIn :: "env \<Rightarrow> obj \<Rightarrow> string \<Rightarrow> bool" where
  "keyIn E x key = (map_of (props x) key \<noteq> None \<or> inPrototypeChain E x key)"

text \<open>\<open>target[key] = val\<close> on an object, in strict mode: a writable data property is
  overwritten, an accessor's setter is called (the reactive one runs \<open>reactiveSetter\<close>), a
  new key becomes an own data property of an extensible object, and anything else throws
  a \<open>TypeError\<close>.\<close>

definition writeProp :: "callees \<Rightarrow> env \<Rightarrow> nat \<Rightarrow> string \<Rightarrow> jsval \<Rightarrow> world \<Rightarrow> unit comp" where
  "writeProp C E a key val s =
     (case map_of (props (objs s a)) key of
        Some (DataProp v en cf wr) \<Rightarrow>
          if wr then
            Some (Inr (), s\<lparr>objs := (objs s)(a := (objs s a)
                    \<lparr>props := updateProp key (DataProp val en cf wr) (props (objs s a))\<rparr>)\<rparr>)
          else Some (Inl typeError, s)
      | Some (AccessorProp g st en cf) \<Rightarrow>
          (case st of
             Some f \<Rightarrow> Some (Inr (), emit (SetterCall f a val) s)
           | None \<Rightarrow> Some (Inl typeError, s))
      | Some (ReactiveProp c en cf) \<Rightarrow> reactiveSetterC C c val s
      | None \<Rightarrow>
          if extensible (objs s a) then
            Some (Inr (), s\<lparr>objs := (objs s)(a := (objs s a)
                    \<lparr>props := updateProp key (DataProp val True True True) (props (objs s a))\<rparr>)\<rparr>)
          else Some (Inl typeError, s))"

text \<open>\<open>target.length = Math.max(target.length, key); target.splice(key, 1, val)\<close> on the
  elements of an array.\<close>

definition spliceAt :: "nat \<Rightarrow> jsval \<Rightarrow> jsval list \<Rightarrow> jsval list" where
  "spliceAt i val xs =
     (let ys = xs @ replicate (i - length xs) JUndefined
      in take i ys @ [val] @ drop (Suc i) ys)"

text \<open>Modelled from the spec: \<open>./array\<close> is not among the sources. On an array whose
  methods are intercepted, \<open>splice\<close> wraps the inserted elements and notifies the
  container's Dep (section 4.2). Growing a non-extensible array throws.\<close>

definition arraySet :: "callees \<Rightarrow> env \<Rightarrow> nat \<Rightarrow> nat \<Rightarrow> jsval \<Rightarrow> world \<Rightarrow> unit comp" where
  "arraySet C E a i val s =
     (if length (elems (objs s a)) \<le> i \<and> \<not> extensible (objs s a) then Some (Inl typeError, s)
      else
        (let s1 = s\<lparr>objs := (objs s)(a := (objs s a)
                     \<lparr>elems := spliceAt i val (elems (objs s a))\<rparr>)\<rparr>
         in case (if augmented (objs s1 a) then ob (objs s1 a) else None) of
              None \<Rightarrow> Some (Inr (), s1)
            | Some k \<Rightarrow>
                (case observeArray C [val] s1 of
                   None \<Rightarrow> None
                 | Some (Inl e, s2) \<Rightarrow> Some (Inl e, s2)
                 | Some (Inr u, s2) \<Rightarrow> Some (notify E (ob_dep (observers s2 k)) s2))))"

definition cannotSetWarning :: string where
  "cannotSetWarning = ''Cannot set reactive property on undefined, null, or primitive value''"

definition avoidAddingWarning :: string where
  "avoidAddingWarning =
     ''Avoid adding reactive properties to a Vue instance or its root $data '' @
     ''at runtime - declare it upfront in the data option.''"

text \<open>\<open>set(target, key, val)\<close>. A target that is \<open>undefined\<close>, \<open>null\<close> or a primitive is
  warned about, and \<open>key in target\<close> then throws.\<close>

definition set_body :: "callees \<Rightarrow> env \<Rightarrow> jsval \<Rightarrow> string \<Rightarrow> jsval \<Rightarrow> world \<Rightarrow> jsval comp" where
  "set_body C E target key val s =
     (case target of
        JObj a \<Rightarrow>
          (case (if cls (objs s a) = ClsArray then arrayIndex E key else None) of
             Some i \<Rightarrow>
               (case arraySet C E a i val s of
                  None \<Rightarrow> None
                | Some (Inl e, s1) \<Rightarrow> Some (Inl e, s1)
                | Some (Inr u, s1) \<Rightarrow> Some (Inr val, s1))
           | None \<Rightarrow>
               if keyIn E (objs s a) key \<and> \<not> inObjectPrototype E key then
                 (case writeProp C E a key val s of
                    None \<Rightarrow> None
                  | Some (Inl e, s1) \<Rightarrow> Some (Inl e, s1)
                  | Some (Inr u, s1) \<Rightarrow> Some (Inr val, s1))
               else
                 (let obr = ob (objs s a)
                  in if isVue (objs s a) \<or>
                        (case obr of Some k \<Rightarrow> vmCount (observers s k) \<noteq> 0 | None \<Rightarrow> False)
                     then Some (Inr val, if \<not> production E then warn avoidAddingWarning s else s)
                     else
                       (case obr of
                          None \<Rightarrow>
                            (case writeProp C E a key val s of
                               None \<Rightarrow> None
                             | Some (Inl e, s1) \<Rightarrow> Some (Inl e, s1)
                             | Some (Inr u, s1) \<Rightarrow> Some (Inr val, s1))
                        | Some k \<Rightarrow>
                            (case defineReactiveC C (ob_value (observers s k)) key
                                    (Some val) None False s of
                               None \<Rightarrow> None
                             | Some (Inl e, s1) \<Rightarrow> Some (Inl e, s1)
                             | Some (Inr u, s1) \<Rightarrow>
                                 (case notify E (ob_dep (observers s1 k)) s1 of
                                    (Inl e, s2) \<Rightarrow> Some (Inl e, s2)
                                  | (Inr u', s2) \<Rightarrow> Some (Inr val, s2))))))
      | _ \<Rightarrow> Some (Inl typeError, if \<not> production E then warn cannotSetWarning s else s))"

definition set_js :: "nat \<Rightarrow> env \<Rightarrow> jsval \<Rightarrow> string \<Rightarrow> jsval \<Rightarrow> world \<Rightarrow> jsval comp" where
  "set_js n E = set_body (level n E) E"

section \<open>Auxiliary notions for the watcher\<close>

text \<open>The Deps on which \<open>addDep\<close> is called during one \<open>get\<close>: those the evaluator reads and,
  for a deep watcher, those \<open>traverse\<close> touches.\<close>

definition getReads :: "env \<Rightarrow> nat \<Rightarrow> world \<Rightarrow> nat list" where
  "getReads E w s =
     (let s1 = pushTarget w s;
          W = watchers s1 w;
          (reads, res) = evaluator E w s1;
          s2 = fold depend reads s1;
          val = (case res of Inr v \<Rightarrow> v | Inl e \<Rightarrow> JUndefined);
          s3 = (case res of
                  Inr v \<Rightarrow> s2
                | Inl e \<Rightarrow> if user W then handleError e (vm W) (getterLabel (expression W)) s2
                           else s2)
      in reads @ (if deep W then traverse E val s3 else []))"

text \<open>What \<open>get\<close> reports through the error channel.\<close>

definition getReport :: "env \<Rightarrow> nat \<Rightarrow> world \<Rightarrow> event list" where
  "getReport E w s =
     (let W = watchers s w in
      case snd (evaluator E w (pushTarget w s)) of
        Inr v \<Rightarrow> []
      | Inl e \<Rightarrow> if user W then [HandleError e (vm W) (getterLabel (expression W))] else [])"

text \<open>The state in which \<open>get\<close> calls \<open>cleanupDeps\<close>.\<close>

definition collected :: "env \<Rightarrow> nat \<Rightarrow> world \<Rightarrow> world" where
  "collected E w s =
     (let s1 = pushTarget w s;
          W = watchers s1 w;
          (reads, res) = evaluator E w s1;
          s2 = fold depend reads s1;
          val = (case res of Inr v \<Rightarrow> v | Inl e \<Rightarrow> JUndefined);
          s3 = (case res of
                  Inr v \<Rightarrow> s2
                | Inl e \<Rightarrow> if user W then handleError e (vm W) (getterLabel (expression W)) s2
                           else s2);
          s4 = (if deep W then fold depend (traverse E val s3) s3 else s3)
      in popTarget s4)"

text \<open>The loop of \<open>cleanupDeps\<close>.\<close>

definition prune :: "nat \<Rightarrow> nat \<Rightarrow> nat list \<Rightarrow> world \<Rightarrow> world" where
  "prune w a ds s = fold (\<lambda>d s'. if d \<notin> sets s' a then removeSub d w s' else s') ds s"

text \<open>
  The state of a watcher between two runs: its two \<open>Set\<close>s and its two arrays are distinct
  objects, the current-run ones are empty, \<open>depIds\<close> holds the ids of \<open>deps\<close>, and the
  watcher is subscribed to each of its \<open>deps\<close>. The constructor establishes it and \<open>get\<close>
  keeps it.
\<close>

definition watcher_ok :: "nat \<Rightarrow> world \<Rightarrow> bool" where
  "watcher_ok w s =
     (let W = watchers s w in
      depIds W \<noteq> newDepIds W \<and> deps W \<noteq> newDeps W \<and>
      sets s (newDepIds W) = {} \<and> arrs s (newDeps W) = [] \<and>
      sets s (depIds W) = set (arrs s (deps W)) \<and>
      (\<forall>d \<in> set (arrs s (deps W)). w \<in> set (subs s d)))"


text \<open>What it means for the dependencies of watcher \<open>w\<close> to be reconciled in \<open>s'\<close> after a
  run started in \<open>s\<close> that read the Deps \<open>R\<close>: the confirmed sets are exactly \<open>R\<close>, the
  watcher is subscribed to every Dep of \<open>R\<close> and to no formerly confirmed Dep outside \<open>R\<close>,
  and the current-run objects are the former confirmed ones, emptied.\<close>

definition reconciled :: "nat \<Rightarrow> nat set \<Rightarrow> world \<Rightarrow> world \<Rightarrow> bool" where
  "reconciled w R s s' =
     (let W = watchers s w; W' = watchers s' w in
      sets s' (depIds W') = R \<and>
      set (arrs s' (deps W')) = R \<and>
      distinct (arrs s' (deps W')) \<and>
      (\<forall>d \<in> R. w \<in> set (subs s' d)) \<and>
      (\<forall>d \<in> set (arrs s (deps W)). d \<notin> R \<longrightarrow> w \<notin> set (subs s' d)) \<and>
      depIds W' = newDepIds W \<and> newDepIds W' = depIds W \<and>
      deps W' = newDeps W \<and> newDeps W' = deps W \<and>
      sets s' (newDepIds W') = {} \<and> arrs s' (newDeps W') = [])"

text \<open>The calls of callbacks, the hand-offs to the scheduler and the calls of \<open>dep.notify\<close>
  recorded in a trace.\<close>

fun callbackCalls :: "event list \<Rightarrow> (nat \<times> jsval \<times> jsval) list" where
  "callbackCalls [] = []"
| "callbackCalls (CallbackCall w v old # es) = (w, v, old) # callbackCalls es"
| "callbackCalls (e # es) = callbackCalls es"

fun queueCalls :: "event list \<Rightarrow> nat list" where
  "queueCalls [] = []"
| "queueCalls (QueueWatcher w # es) = w # queueCalls es"
| "queueCalls (e # es) = queueCalls es"

fun notifyCalls :: "event list \<Rightarrow> nat list" where
  "notifyCalls [] = []"
| "notifyCalls (Notify d # es) = d # notifyCalls es"
| "notifyCalls (e # es) = notifyCalls es"

section \<open>Example states\<close>

definition demoWatcher :: watcher where
  "demoWatcher =
     \<lparr>vm = 0, expression = ''a.b'', wid = 1,
      deep = False, user = True, lazy = False, sync = True, dirty = False, active = True,
      deps = 0, newDeps = 1, depIds = 0, newDepIds = 1, wvalue = JNum 1\<rparr>"

definition demoObj :: obj where
  "demoObj =
     \<lparr>cls = ClsObject, isVNode = False, isVue = False, extensible = True, ob = None,
      props = [], elems = [], augmented = False\<rparr>"

definition demoClosure :: closure where
  "demoClosure =
     \<lparr>c_obj = 0, c_key = ''a'', c_val = JNum 1, c_childOb = None, c_getter = None,
      c_setter = None, c_customSetter = None, c_shallow = False, c_dep = 7\<rparr>"

text \<open>Watcher 0 has run once and confirmed the Deps 1 and 2.\<close>

definition demoWorld :: world where
  "demoWorld =
     \<lparr>subs = (\<lambda>d. if d = 1 \<or> d = 2 then [0] else []),
      depUid = 10,
      watchers = (\<lambda>w. demoWatcher),
      nextWatcher = 1, uid = 1,
      sets = (\<lambda>a. if a = 0 then {1, 2} else {}), nextSet = 2,
      arrs = (\<lambda>a. if a = 0 then [1, 2] else []), nextArr = 2,
      targetStack = [],
      vmWatcher = (\<lambda>v. None),
      vmWatchers = (\<lambda>v. [0]),
      vmBeingDestroyed = (\<lambda>v. False),
      objs = (\<lambda>a. demoObj),
      observers = (\<lambda>k. \<lparr>ob_value = 0, ob_dep = 0, vmCount = 0\<rparr>), nextObserver = 0,
      closures = (\<lambda>c. demoClosure), nextClosure = 0,
      shouldObserve = True,
      trace = []\<rparr>"

text \<open>An evaluator that reads the Deps 2 and 3 and returns 5; one that reads Dep 3 and
  throws.\<close>

definition demoEnv :: env where
  "demoEnv =
     \<lparr>evaluator = (\<lambda>w s. ([2, 3], Inr (JNum 5))),
      traverse = (\<lambda>v s. []),
      callback = (\<lambda>w v old s. None),
      remove = (\<lambda>xs x. remove1 x xs),
      parsePath = (\<lambda>p. True),
      origGetter = (\<lambda>g s. JUndefined),
      production = False, serverRendering = False, hasProto = True,
      inObjectPrototype = (\<lambda>k. k = ''toString''),
      inPrototypeChain = (\<lambda>x k. k = ''toString''),
      protoValue = (\<lambda>x k. JUndefined),
      arrayIndex = (\<lambda>k. None),
      arrayKeys = [''push'', ''splice''],
      arrayMethod = (\<lambda>k. JUndefined)\<rparr>"

definition throwingEnv :: env where
  "throwingEnv = demoEnv\<lparr>evaluator := (\<lambda>w s. ([3], Inl (JStr ''boom'')))\<rparr>"

definition withWatcher :: "watcher \<Rightarrow> world" where
  "withWatcher W = demoWorld\<lparr>watchers := (\<lambda>w. W)\<rparr>"

text \<open>Watcher 0 is subscribed to the Dep of the key held by the closures.\<close>

definition keyWorld :: world where
  "keyWorld =
     demoWorld\<lparr>subs := (\<lambda>d. if d = 7 then [0] else subs demoWorld d), nextClosure := 1\<rparr>"

text \<open>The same, on a heap whose only object still to be observed is the plain object 0.\<close>

definition dataWorld :: world where
  "dataWorld =
     keyWorld\<lparr>objs := (\<lambda>a. if a = 0
                                then demoObj\<lparr>props := [(''c'', DataProp (JNum 2) True True True)]\<rparr>
                                else demoObj\<lparr>cls := ClsOther\<rparr>)\<rparr>"

definition withClosure :: "closure \<Rightarrow> world" where
  "withClosure cl = keyWorld\<lparr>closures := (\<lambda>c. cl)\<rparr>"

text \<open>Object 0 is the root data of one instance.\<close>

definition rootWorld :: world where
  "rootWorld =
     demoWorld\<lparr>objs := (\<lambda>a. demoObj\<lparr>ob := Some 0\<rparr>),
               observers := (\<lambda>k. \<lparr>ob_value = 0, ob_dep = 8, vmCount = 1\<rparr>)\<rparr>"

definition withObj :: "obj \<Rightarrow> world" where
  "withObj x = demoWorld\<lparr>objs := (\<lambda>a. x)\<rparr>"

text \<open>Object 0 has been sealed after \<open>defineReactive\<close> made its key \<open>a\<close> reactive: the
  accessor pair of closure 0 is still there, and it is not configurable any more.\<close>

definition sealedWorld :: world where
  "sealedWorld =
     keyWorld\<lparr>objs := (\<lambda>a. demoObj\<lparr>extensible := False,
                                    props := [(''a'', ReactiveProp 0 True False)]\<rparr>)\<rparr>"

text \<open>What \<open>run\<close>, \<open>update\<close> and a notification pass leave as they are: the heap of the
  observer and the record of \<open>dep.notify\<close> calls.\<close>

definition heap_kept :: "world \<Rightarrow> world \<Rightarrow> bool" where
  "heap_kept s s' =
     (closures s' = closures s \<and> objs s' = objs s \<and> observers s' = observers s \<and>
      nextClosure s' = nextClosure s \<and> nextObserver s' = nextObserver s \<and>
      depUid s' = depUid s \<and> shouldObserve s' = shouldObserve s \<and>
      notifyCalls (trace s') = notifyCalls (trace s))"

text \<open>What \<open>observe\<close>, \<open>defineReactive\<close>, \<open>reactiveGetter\<close> and \<open>dependArray\<close> leave as they
  are: the trace, the watchers, the target stack and the closures that exist already.\<close>

definition quiet :: "world \<Rightarrow> world \<Rightarrow> bool" where
  "quiet s s' =
     (trace s' = trace s \<and> watchers s' = watchers s \<and> targetStack s' = targetStack s \<and>
      nextClosure s \<le> nextClosure s' \<and>
      (\<forall>c < nextClosure s. closures s' c = closures s c))"


text \<open>The objects for which \<open>observe\<close> would create an Observer.\<close>

definition observable :: "env \<Rightarrow> world \<Rightarrow> nat \<Rightarrow> bool" where
  "observable E s a =
     (shouldObserve s \<and> \<not> serverRendering E \<and>
      (cls (objs s a) = ClsArray \<or> cls (objs s a) = ClsObject) \<and>
      extensible (objs s a) \<and> \<not> isVue (objs s a) \<and> \<not> isVNode (objs s a))"

definition fresh :: "env \<Rightarrow> world \<Rightarrow> nat set" where
  "fresh E s = {a. ob (objs s a) = None \<and> observable E s a}"




text \<open>What observing changes in the objects: only objects that were still to be observed
  (and those in \<open>X\<close>), and none of those that remain so.\<close>

definition ext :: "env \<Rightarrow> nat set \<Rightarrow> world \<Rightarrow> world \<Rightarrow> bool" where
  "ext E X s s' =
     (shouldObserve s' = shouldObserve s \<and>
      (\<forall>b. b \<notin> X \<longrightarrow> b \<notin> fresh E s \<longrightarrow> objs s' b = objs s b) \<and>
      (\<forall>b \<in> fresh E s'. b \<in> fresh E s \<and> objs s' b = objs s b))"



section \<open>Dependency collection\<close>

lemma addDep_frame [simp]:
  "watchers (addDep w d s) = watchers s"
  "targetStack (addDep w d s) = targetStack s"
  "trace (addDep w d s) = trace s"
  "vmWatchers (addDep w d s) = vmWatchers s"
  "vmBeingDestroyed (addDep w d s) = vmBeingDestroyed s"
  by (simp_all add: addDep_def addSub_def Let_def)

lemma fold_addDep_frame [simp]:
  "watchers (fold (addDep w) ds s) = watchers s"
  "targetStack (fold (addDep w) ds s) = targetStack s"
  "trace (fold (addDep w) ds s) = trace s"
  "vmWatchers (fold (addDep w) ds s) = vmWatchers s"
  "vmBeingDestroyed (fold (addDep w) ds s) = vmBeingDestroyed s"
  by (induction ds arbitrary: s; simp)+

lemma fold_depend_addDep:
  "targetStack s = w # ts \<Longrightarrow> fold depend ds s = fold (addDep w) ds s"
  by (induction ds arbitrary: s) (simp_all add: depend_def)

lemma addDep_sets_new:
  "depIds (watchers s w) \<noteq> newDepIds (watchers s w) \<Longrightarrow>
   sets (addDep w d s) = (sets s)(newDepIds (watchers s w) := insert d (sets s (newDepIds (watchers s w))))"
  by (auto simp add: addDep_def addSub_def Let_def fun_eq_iff)

lemma fold_addDep_sets:
  "sets (fold (addDep w) ds s) =
     (sets s)(newDepIds (watchers s w) := sets s (newDepIds (watchers s w)) \<union> set ds)"
  by (induction ds arbitrary: s) (auto simp add: addDep_def addSub_def Let_def fun_eq_iff)

lemma addDep_arrs:
  "arrs (addDep w d s) =
     (arrs s)(newDeps (watchers s w) :=
        (if d \<in> sets s (newDepIds (watchers s w)) then arrs s (newDeps (watchers s w))
         else arrs s (newDeps (watchers s w)) @ [d]))"
  by (auto simp add: addDep_def addSub_def Let_def fun_eq_iff)

lemma fold_addDep_arrs_other:
  "a \<noteq> newDeps (watchers s w) \<Longrightarrow> arrs (fold (addDep w) ds s) a = arrs s a"
  by (induction ds arbitrary: s) (simp_all add: addDep_arrs)

lemma fold_addDep_arrs_new:
  "set (arrs s (newDeps (watchers s w))) = sets s (newDepIds (watchers s w)) \<Longrightarrow>
   distinct (arrs s (newDeps (watchers s w))) \<Longrightarrow>
   set (arrs (fold (addDep w) ds s) (newDeps (watchers s w))) = sets s (newDepIds (watchers s w)) \<union> set ds
   \<and> distinct (arrs (fold (addDep w) ds s) (newDeps (watchers s w)))"
proof (induction ds arbitrary: s)
  case Nil
  then show ?case by simp
next
  case (Cons d ds)
  let ?s = "addDep w d s"
  have a: "set (arrs ?s (newDeps (watchers ?s w))) = sets ?s (newDepIds (watchers ?s w))"
    using Cons.prems by (auto simp add: addDep_arrs fold_addDep_sets[of w "[d]" s, simplified])
  have b: "distinct (arrs ?s (newDeps (watchers ?s w)))"
    using Cons.prems by (auto simp add: addDep_arrs)
  from Cons.IH[OF a b] show ?case
    by (auto simp add: fold_addDep_sets[of w "[d]" s, simplified])
qed

lemma addDep_subs_mem:
  "w' \<in> set (subs s d') \<Longrightarrow> w' \<in> set (subs (addDep w d s) d')"
  by (auto simp add: addDep_def addSub_def Let_def)

lemma addDep_subs_other:
  "d' \<noteq> d \<Longrightarrow> subs (addDep w d s) d' = subs s d'"
  by (auto simp add: addDep_def addSub_def Let_def)

lemma addDep_subs_other_watcher:
  "w' \<noteq> w \<Longrightarrow> (w' \<in> set (subs (addDep w d s) d')) = (w' \<in> set (subs s d'))"
  by (auto simp add: addDep_def addSub_def Let_def)

lemma addDep_subscribes:
  "depIds (watchers s w) \<noteq> newDepIds (watchers s w) \<Longrightarrow>
   d \<in> sets s (depIds (watchers s w)) \<longrightarrow> w \<in> set (subs s d) \<Longrightarrow>
   d \<in> sets s (newDepIds (watchers s w)) \<longrightarrow> w \<in> set (subs s d) \<Longrightarrow>
   w \<in> set (subs (addDep w d s) d)"
  by (auto simp add: addDep_def addSub_def Let_def)

lemma fold_addDep_subs_mem:
  "w' \<in> set (subs s d') \<Longrightarrow> w' \<in> set (subs (fold (addDep w) ds s) d')"
  by (induction ds arbitrary: s) (simp_all add: addDep_subs_mem)

lemma fold_addDep_subs_other:
  "d' \<notin> set ds \<Longrightarrow> subs (fold (addDep w) ds s) d' = subs s d'"
  by (induction ds arbitrary: s) (simp_all add: addDep_subs_other)

lemma fold_addDep_subs_other_watcher:
  "w' \<noteq> w \<Longrightarrow> (w' \<in> set (subs (fold (addDep w) ds s) d')) = (w' \<in> set (subs s d'))"
  by (induction ds arbitrary: s) (simp_all add: addDep_subs_other_watcher)

lemma fold_addDep_subscribes:
  assumes "depIds (watchers s w) \<noteq> newDepIds (watchers s w)"
    and "\<forall>d \<in> sets s (depIds (watchers s w)). w \<in> set (subs s d)"
    and "\<forall>d \<in> sets s (newDepIds (watchers s w)). w \<in> set (subs s d)"
    and "d \<in> set ds"
  shows "w \<in> set (subs (fold (addDep w) ds s) d)"
  using assms
proof (induction ds arbitrary: s)
  case Nil
  then show ?case by simp
next
  case (Cons x xs)
  let ?s = "addDep w x s"
  have x: "w \<in> set (subs ?s x)"
    using Cons.prems by (intro addDep_subscribes) auto
  show ?case
  proof (cases "d = x")
    case True
    then show ?thesis using x by (simp add: fold_addDep_subs_mem)
  next
    case False
    then have dxs: "d \<in> set xs" using Cons.prems by simp
    have 1: "depIds (watchers ?s w) \<noteq> newDepIds (watchers ?s w)" using Cons.prems by simp
    have 2: "\<forall>d \<in> sets ?s (depIds (watchers ?s w)). w \<in> set (subs ?s d)"
      using Cons.prems(1,2) by (auto simp add: fold_addDep_sets[of w "[x]" s, simplified] addDep_subs_mem)
    have 3: "\<forall>d \<in> sets ?s (newDepIds (watchers ?s w)). w \<in> set (subs ?s d)"
      using Cons.prems(3) x by (auto simp add: fold_addDep_sets[of w "[x]" s, simplified] addDep_subs_mem)
    from Cons.IH[OF 1 2 3 dxs] show ?thesis by simp
  qed
qed

lemma removeSub_frame [simp]:
  "watchers (removeSub d w s) = watchers s"
  "targetStack (removeSub d w s) = targetStack s"
  "trace (removeSub d w s) = trace s"
  "sets (removeSub d w s) = sets s"
  "arrs (removeSub d w s) = arrs s"
  "vmWatchers (removeSub d w s) = vmWatchers s"
  "vmBeingDestroyed (removeSub d w s) = vmBeingDestroyed s"
  by (simp_all add: removeSub_def)

lemma handleError_frame [simp]:
  "watchers (handleError e v i s) = watchers s"
  "targetStack (handleError e v i s) = targetStack s"
  "sets (handleError e v i s) = sets s"
  "arrs (handleError e v i s) = arrs s"
  "subs (handleError e v i s) = subs s"
  "trace (handleError e v i s) = trace s @ [HandleError e v i]"
  by (simp_all add: handleError_def emit_def)

lemma pushTarget_frame [simp]:
  "watchers (pushTarget w s) = watchers s"
  "targetStack (pushTarget w s) = w # targetStack s"
  "sets (pushTarget w s) = sets s"
  "arrs (pushTarget w s) = arrs s"
  "subs (pushTarget w s) = subs s"
  "trace (pushTarget w s) = trace s"
  by (simp_all add: pushTarget_def)

lemma popTarget_frame [simp]:
  "watchers (popTarget s) = watchers s"
  "targetStack (popTarget s) = tl (targetStack s)"
  "sets (popTarget s) = sets s"
  "arrs (popTarget s) = arrs s"
  "subs (popTarget s) = subs s"
  "trace (popTarget s) = trace s"
  by (simp_all add: popTarget_def)

lemma prune_frame [simp]:
  "watchers (prune w a ds s) = watchers s"
  "targetStack (prune w a ds s) = targetStack s"
  "trace (prune w a ds s) = trace s"
  "sets (prune w a ds s) = sets s"
  "arrs (prune w a ds s) = arrs s"
  "vmWatchers (prune w a ds s) = vmWatchers s"
  "vmBeingDestroyed (prune w a ds s) = vmBeingDestroyed s"
  by (induction ds arbitrary: s; simp add: prune_def)+

lemma prune_subs:
  "subs (prune w a ds s) d =
     (if d \<in> set ds \<and> d \<notin> sets s a then removeAll w (subs s d) else subs s d)"
proof (induction ds arbitrary: s)
  case Nil
  then show ?case by (simp add: prune_def)
next
  case (Cons x xs)
  have "prune w a (x # xs) s = prune w a xs (if x \<notin> sets s a then removeSub x w s else s)"
    by (simp add: prune_def)
  then show ?case using Cons.IH by (auto simp add: removeSub_def)
qed

lemma cleanupDeps_prune:
  "cleanupDeps w s =
     (let W = watchers s w;
          s1 = prune w (newDepIds W) (rev (arrs s (deps W))) s
      in s1\<lparr>sets := (sets s1)(depIds W := {}),
            arrs := (arrs s1)(deps W := []),
            watchers := (watchers s1)(w := W\<lparr>depIds := newDepIds W, newDepIds := depIds W,
                                              deps := newDeps W, newDeps := deps W\<rparr>)\<rparr>)"
  by (simp add: cleanupDeps_def prune_def Let_def)

lemma get_collected: "snd (get E w s) = cleanupDeps w (collected E w s)"
  by (simp add: get_def collected_def Let_def split: prod.splits sum.splits)

lemma addDep_trace_upd:
  "addDep w d (s\<lparr>trace := t\<rparr>) = (addDep w d s)\<lparr>trace := t\<rparr>"
  by (simp add: addDep_def addSub_def Let_def)

lemma addDep_targetStack_upd:
  "addDep w d (s\<lparr>targetStack := t\<rparr>) = (addDep w d s)\<lparr>targetStack := t\<rparr>"
  by (simp add: addDep_def addSub_def Let_def)

lemma fold_addDep_trace_upd:
  "fold (addDep w) ds (s\<lparr>trace := t\<rparr>) = (fold (addDep w) ds s)\<lparr>trace := t\<rparr>"
  by (induction ds arbitrary: s) (simp_all add: addDep_trace_upd)

lemma fold_addDep_targetStack_upd:
  "fold (addDep w) ds (s\<lparr>targetStack := t\<rparr>) = (fold (addDep w) ds s)\<lparr>targetStack := t\<rparr>"
  by (induction ds arbitrary: s) (simp_all add: addDep_targetStack_upd)

lemma fold_depend_pushed:
  "fold depend ds (pushTarget w s) = (fold (addDep w) ds s)\<lparr>targetStack := w # targetStack s\<rparr>"
  by (simp add: fold_depend_addDep[where ts = "targetStack s"] pushTarget_def fold_addDep_targetStack_upd)


lemma fold_depend_top:
  "targetStack s \<noteq> [] \<Longrightarrow> fold depend ds s = fold (addDep (hd (targetStack s))) ds s"
  by (cases "targetStack s") (simp_all add: fold_depend_addDep)

lemma collected_eq:
  "collected E w s =
     (fold (addDep w) (getReads E w s) s)\<lparr>trace := trace s @ getReport E w s\<rparr>"
proof -
  obtain reads res where ev: "evaluator E w (pushTarget w s) = (reads, res)"
    by (cases "evaluator E w (pushTarget w s)")
  show ?thesis
  proof (cases res)
    case (Inl e)
    then show ?thesis using ev
      by (simp add: collected_def getReads_def getReport_def Let_def fold_depend_top
          fold_addDep_trace_upd fold_addDep_targetStack_upd handleError_def emit_def
          pushTarget_def popTarget_def)
  next
    case (Inr v)
    then show ?thesis using ev
      by (simp add: collected_def getReads_def getReport_def Let_def fold_depend_top
          fold_addDep_trace_upd fold_addDep_targetStack_upd handleError_def emit_def
          pushTarget_def popTarget_def)
  qed
qed

lemma collected_fields:
  assumes ok: "watcher_ok w s"
  shows "watchers (collected E w s) = watchers s"
    and "targetStack (collected E w s) = targetStack s"
    and "sets (collected E w s) = (sets s)(newDepIds (watchers s w) := set (getReads E w s))"
    and "arrs (collected E w s) (deps (watchers s w)) = arrs s (deps (watchers s w))"
    and "set (arrs (collected E w s) (newDeps (watchers s w))) = set (getReads E w s)"
    and "distinct (arrs (collected E w s) (newDeps (watchers s w)))"
    and "trace (collected E w s) = trace s @ getReport E w s"
proof -
  let ?W = "watchers s w"
  from ok have a: "deps ?W \<noteq> newDeps ?W" "sets s (newDepIds ?W) = {}" "arrs s (newDeps ?W) = []"
    by (simp_all add: watcher_ok_def Let_def)
  show "watchers (collected E w s) = watchers s" by (simp add: collected_eq)
  show "targetStack (collected E w s) = targetStack s" by (simp add: collected_eq)
  show "sets (collected E w s) = (sets s)(newDepIds ?W := set (getReads E w s))"
    using a by (simp add: collected_eq fold_addDep_sets)
  show "arrs (collected E w s) (deps ?W) = arrs s (deps ?W)"
    using a by (simp add: collected_eq fold_addDep_arrs_other)
  have "set (arrs s (newDeps ?W)) = sets s (newDepIds ?W)" "distinct (arrs s (newDeps ?W))"
    using a by simp_all
  from fold_addDep_arrs_new[OF this, of "getReads E w s"] a
  show "set (arrs (collected E w s) (newDeps ?W)) = set (getReads E w s)"
    and "distinct (arrs (collected E w s) (newDeps ?W))"
    by (simp_all add: collected_eq)
  show "trace (collected E w s) = trace s @ getReport E w s" by (simp add: collected_eq)
qed

lemma collected_subs:
  assumes ok: "watcher_ok w s"
  shows "d \<in> set (getReads E w s) \<Longrightarrow> w \<in> set (subs (collected E w s) d)"
    and "w' \<in> set (subs s d) \<Longrightarrow> w' \<in> set (subs (collected E w s) d)"
    and "w' \<noteq> w \<Longrightarrow> (w' \<in> set (subs (collected E w s) d')) = (w' \<in> set (subs s d'))"
    and "d \<notin> set (getReads E w s) \<Longrightarrow> subs (collected E w s) d = subs s d"
proof -
  let ?W = "watchers s w"
  from ok have a: "depIds ?W \<noteq> newDepIds ?W" "sets s (newDepIds ?W) = {}"
    "\<forall>d \<in> sets s (depIds ?W). w \<in> set (subs s d)"
    by (simp_all add: watcher_ok_def Let_def)
  show "d \<in> set (getReads E w s) \<Longrightarrow> w \<in> set (subs (collected E w s) d)"
    using fold_addDep_subscribes[OF a(1) a(3), of d "getReads E w s"] a(2)
    by (simp add: collected_eq)
  show "w' \<in> set (subs s d) \<Longrightarrow> w' \<in> set (subs (collected E w s) d)"
    by (simp add: collected_eq fold_addDep_subs_mem)
  show "w' \<noteq> w \<Longrightarrow> (w' \<in> set (subs (collected E w s) d')) = (w' \<in> set (subs s d'))"
    by (simp add: collected_eq fold_addDep_subs_other_watcher)
  show "d \<notin> set (getReads E w s) \<Longrightarrow> subs (collected E w s) d = subs s d"
    by (simp add: collected_eq fold_addDep_subs_other)
qed


lemma get_reconciled:
  assumes ok: "watcher_ok w s"
  shows "reconciled w (set (getReads E w s)) s (snd (get E w s))"
    and "watcher_ok w (snd (get E w s))"
proof -
  let ?W = "watchers s w"
  let ?c = "collected E w s"
  let ?R = "set (getReads E w s)"
  let ?s' = "cleanupDeps w ?c"
  note cf = collected_fields[OF ok, where E = E]
  note cs = collected_subs[OF ok, where E = E]
  from ok have a: "depIds ?W \<noteq> newDepIds ?W" "deps ?W \<noteq> newDeps ?W"
    by (simp_all add: watcher_ok_def Let_def)
  have W': "watchers ?s' w = ?W\<lparr>depIds := newDepIds ?W, newDepIds := depIds ?W,
                                  deps := newDeps ?W, newDeps := deps ?W\<rparr>"
    by (simp add: cleanupDeps_prune Let_def cf)
  have sets': "sets ?s' = (sets s)(newDepIds ?W := ?R, depIds ?W := {})"
    by (simp add: cleanupDeps_prune Let_def cf)
  have arrs_new: "arrs ?s' (newDeps ?W) = arrs ?c (newDeps ?W)"
    using a by (simp add: cleanupDeps_prune Let_def cf)
  have arrs_old: "arrs ?s' (deps ?W) = []"
    by (simp add: cleanupDeps_prune Let_def cf)
  have subs': "subs ?s' d =
      (if d \<in> set (arrs s (deps ?W)) \<and> d \<notin> ?R then removeAll w (subs ?c d) else subs ?c d)" for d
    using a by (simp add: cleanupDeps_prune Let_def cf prune_subs)
  have kept: "\<forall>d \<in> ?R. w \<in> set (subs ?s' d)"
    by (simp add: subs' cs(1))
  have pruned: "\<forall>d \<in> set (arrs s (deps ?W)). d \<notin> ?R \<longrightarrow> w \<notin> set (subs ?s' d)"
    by (simp add: subs')
  show "watcher_ok w (snd (get E w s))"
    using a kept by (simp add: get_collected watcher_ok_def Let_def W' sets' arrs_new arrs_old cf)
  show "reconciled w ?R s (snd (get E w s))"
    using a kept pruned
    by (simp add: get_collected reconciled_def Let_def W' sets' arrs_new arrs_old cf)
qed


lemma cleanupDeps_frame [simp]:
  "trace (cleanupDeps w s) = trace s"
  "targetStack (cleanupDeps w s) = targetStack s"
  "vmWatchers (cleanupDeps w s) = vmWatchers s"
  "vmBeingDestroyed (cleanupDeps w s) = vmBeingDestroyed s"
  by (simp_all add: cleanupDeps_prune Let_def)

lemma cleanupDeps_watcher_fields [simp]:
  "wvalue (watchers (cleanupDeps w s) w') = wvalue (watchers s w')"
  "dirty (watchers (cleanupDeps w s) w') = dirty (watchers s w')"
  "active (watchers (cleanupDeps w s) w') = active (watchers s w')"
  "deep (watchers (cleanupDeps w s) w') = deep (watchers s w')"
  "user (watchers (cleanupDeps w s) w') = user (watchers s w')"
  "lazy (watchers (cleanupDeps w s) w') = lazy (watchers s w')"
  "sync (watchers (cleanupDeps w s) w') = sync (watchers s w')"
  "vm (watchers (cleanupDeps w s) w') = vm (watchers s w')"
  "expression (watchers (cleanupDeps w s) w') = expression (watchers s w')"
  by (simp_all add: cleanupDeps_prune Let_def)

lemma get_trace: "trace (snd (get E w s)) = trace s @ getReport E w s"
  by (simp add: get_collected collected_eq)

lemma get_targetStack: "targetStack (snd (get E w s)) = targetStack s"
  by (simp add: get_collected collected_eq)

lemma get_watcher_fields [simp]:
  "wvalue (watchers (snd (get E w s)) w') = wvalue (watchers s w')"
  "dirty (watchers (snd (get E w s)) w') = dirty (watchers s w')"
  "active (watchers (snd (get E w s)) w') = active (watchers s w')"
  "deep (watchers (snd (get E w s)) w') = deep (watchers s w')"
  "user (watchers (snd (get E w s)) w') = user (watchers s w')"
  "lazy (watchers (snd (get E w s)) w') = lazy (watchers s w')"
  "sync (watchers (snd (get E w s)) w') = sync (watchers s w')"
  "vm (watchers (snd (get E w s)) w') = vm (watchers s w')"
  "expression (watchers (snd (get E w s)) w') = expression (watchers s w')"
  by (simp_all add: get_collected collected_eq)

lemma get_fst:
  "fst (get E w s) =
     (case snd (evaluator E w (pushTarget w s)) of
        Inr v \<Rightarrow> Inr v
      | Inl e \<Rightarrow> if user (watchers s w) then Inr JUndefined else Inl e)"
  by (simp add: get_def Let_def split: prod.splits sum.splits)

lemma callbackCalls_append [simp]:
  "callbackCalls (xs @ ys) = callbackCalls xs @ callbackCalls ys"
  by (induction xs rule: callbackCalls.induct) simp_all

lemma callbackCalls_getReport [simp]: "callbackCalls (getReport E w s) = []"
  by (simp add: getReport_def Let_def split: sum.splits)

lemma queueCalls_append [simp]: "queueCalls (xs @ ys) = queueCalls xs @ queueCalls ys"
  by (induction xs rule: queueCalls.induct) simp_all

lemma queueCalls_getReport [simp]: "queueCalls (getReport E w s) = []"
  by (simp add: getReport_def Let_def split: sum.splits)

lemma run_no_queue_no_dirty:
  "queueCalls (trace (snd (run E w s))) = queueCalls (trace s)"
  "dirty (watchers (snd (run E w s)) w') = dirty (watchers s w')"
proof -
  obtain r s1 where g: "get E w s = (r, s1)" by (cases "get E w s")
  then have s1: "s1 = snd (get E w s)" by simp
  have f: "trace s1 = trace s @ getReport E w s" "dirty (watchers s1 w') = dirty (watchers s w')"
    by (simp_all add: s1 get_trace)
  show "queueCalls (trace (snd (run E w s))) = queueCalls (trace s)"
    using g f by (auto simp add: run_def Let_def emit_def handleError_def split: sum.splits option.splits)
  show "dirty (watchers (snd (run E w s)) w') = dirty (watchers s w')"
    using g f by (auto simp add: run_def Let_def emit_def handleError_def split: sum.splits option.splits)
qed

lemma fold_removeSub_frame [simp]:
  "watchers (fold (\<lambda>d s'. removeSub d w s') ds s) = watchers s"
  "trace (fold (\<lambda>d s'. removeSub d w s') ds s) = trace s"
  "arrs (fold (\<lambda>d s'. removeSub d w s') ds s) = arrs s"
  "sets (fold (\<lambda>d s'. removeSub d w s') ds s) = sets s"
  "vmWatchers (fold (\<lambda>d s'. removeSub d w s') ds s) = vmWatchers s"
  by (induction ds arbitrary: s; simp)+

lemma fold_removeSub_subs:
  "subs (fold (\<lambda>d s'. removeSub d w s') ds s) d =
     (if d \<in> set ds then removeAll w (subs s d) else subs s d)"
  by (induction ds arbitrary: s) (auto simp add: removeSub_def)

section \<open>The constructor establishes the state between runs\<close>

lemma watcher_ok_wvalue_upd:
  "watcher_ok w s \<Longrightarrow>
   watcher_ok w (s\<lparr>watchers := (watchers s)(w := (watchers s w)\<lparr>wvalue := v\<rparr>)\<rparr>)"
  by (simp add: watcher_ok_def Let_def)

lemma watcher_ok_warn: "watcher_ok w s \<Longrightarrow> watcher_ok w (warn m s)"
  by (simp add: watcher_ok_def Let_def warn_def emit_def)

lemma newWatcher_ok:
  assumes "newWatcher E v e options isRenderWatcher s = (Inr w, s')"
  shows "watcher_ok w s'"
proof -
  define w0 where "w0 = nextWatcher s"
  define s1 where "s1 = s\<lparr>nextWatcher := Suc w0\<rparr>"
  define s2 where
    "s2 = (if isRenderWatcher then s1\<lparr>vmWatcher := (vmWatcher s1)(v := Some w0)\<rparr> else s1)"
  define s3 where "s3 = s2\<lparr>vmWatchers := (vmWatchers s2)(v := vmWatchers s2 v @ [w0])\<rparr>"
  define opt where "opt = (case options of
                   Some given \<Rightarrow> given
                 | None \<Rightarrow> \<lparr>o_deep = False, o_user = False, o_lazy = False, o_sync = False\<rparr>)"
  define s4 where "s4 = s3\<lparr>uid := Suc (uid s3)\<rparr>"
  define a1 where "a1 = nextArr s4"
  define s5 where "s5 = s4\<lparr>arrs := (arrs s4)(a1 := [], Suc a1 := []), nextArr := Suc (Suc a1)\<rparr>"
  define b1 where "b1 = nextSet s5"
  define s6 where "s6 = s5\<lparr>sets := (sets s5)(b1 := {}, Suc b1 := {}), nextSet := Suc (Suc b1)\<rparr>"
  define W where "W = \<lparr>vm = v,
               expression = (if production E then [] else toString e),
               wid = uid s6,
               deep = o_deep opt, user = o_user opt, lazy = o_lazy opt, sync = o_sync opt,
               dirty = o_lazy opt, active = True,
               deps = a1, newDeps = Suc a1, depIds = b1, newDepIds = Suc b1,
               wvalue = JUndefined\<rparr>"
  define s7 where "s7 = s6\<lparr>watchers := (watchers s6)(w0 := W)\<rparr>"
  define s8 where "s8 = (case e of
                  Fn src \<Rightarrow> s7
                | Path p \<Rightarrow>
                    if parsePath E p \<or> production E then s7 else warn (failedPathWarning p) s7)"
  have nw: "newWatcher E v e options isRenderWatcher s =
     (if lazy W then (Inr w0, s8)
      else (case get E w0 s8 of
                 (Inl x, s9) \<Rightarrow> (Inl x, s9)
               | (Inr val, s9) \<Rightarrow>
                   (Inr w0, s9\<lparr>watchers := (watchers s9)(w0 := (watchers s9 w0)\<lparr>wvalue := val\<rparr>)\<rparr>)))"
    unfolding newWatcher_def Let_def s8_def s7_def W_def s6_def b1_def s5_def a1_def s4_def
      opt_def s3_def s2_def s1_def w0_def
    by (rule refl)
  have ok7: "watcher_ok w0 s7"
    by (simp add: watcher_ok_def Let_def s7_def W_def s6_def s5_def)
  have ok8: "watcher_ok w0 s8"
    using ok7 by (cases e) (simp_all add: s8_def watcher_ok_warn)
  show ?thesis
  proof (cases "lazy W")
    case True
    then show ?thesis using assms ok8 by (simp add: nw)
  next
    case False
    obtain r s9 where g: "get E w0 s8 = (r, s9)" by (cases "get E w0 s8")
    then have "s9 = snd (get E w0 s8)" by simp
    with get_reconciled(2)[OF ok8, of E] have ok9: "watcher_ok w0 s9" by simp
    show ?thesis
      using assms False g watcher_ok_wvalue_upd[OF ok9]
      by (cases r) (auto simp add: nw)
  qed
qed

text \<open>\<open>run\<close>, \<open>update\<close> and \<open>evaluate\<close> keep the state between runs as well.\<close>

lemma watcher_ok_trace_upd: "watcher_ok w (s\<lparr>trace := t\<rparr>) = watcher_ok w s"
  by (simp add: watcher_ok_def Let_def)

lemma watcher_ok_flag_upd:
  "watcher_ok w s \<Longrightarrow>
   watcher_ok w (s\<lparr>watchers := (watchers s)(w := (watchers s w)\<lparr>dirty := b\<rparr>)\<rparr>)"
  by (simp add: watcher_ok_def Let_def)

lemma run_ok:
  assumes "watcher_ok w s"
  shows "watcher_ok w (snd (run E w s))"
proof -
  obtain r s1 where g: "get E w s = (r, s1)" by (cases "get E w s")
  then have ok1: "watcher_ok w s1" using get_reconciled(2)[OF assms, of E] by simp
  show ?thesis
    using g ok1 assms watcher_ok_wvalue_upd[OF ok1]
    by (auto simp add: run_def Let_def emit_def handleError_def watcher_ok_trace_upd
        split: sum.splits option.splits)
qed

lemma update_ok:
  assumes "watcher_ok w s"
  shows "watcher_ok w (snd (update E w s))"
  using assms run_ok[OF assms, of E] watcher_ok_flag_upd[OF assms, of True]
  by (simp add: update_def Let_def queueWatcher_def emit_def watcher_ok_trace_upd)

lemma evaluate_ok:
  assumes "watcher_ok w s"
  shows "watcher_ok w (snd (evaluate E w s))"
proof -
  obtain r s1 where g: "get E w s = (r, s1)" by (cases "get E w s")
  then have ok1: "watcher_ok w s1" using get_reconciled(2)[OF assms, of E] by simp
  show ?thesis
    using g ok1 by (cases r) (simp_all add: evaluate_def Let_def watcher_ok_def)
qed

section \<open>Claims about the watcher\<close>

lemmas demo_defs =
  demoWorld_def demoWatcher_def demoEnv_def demoObj_def demoClosure_def throwingEnv_def

lemmas eval_defs =
  get_def run_def update_def teardown_def Let_def pushTarget_def popTarget_def depend_def
  addDep_def addSub_def cleanupDeps_def removeSub_def emit_def handleError_def queueWatcher_def
  getterLabel_def callbackLabel_def withWatcher_def

lemma demo_get_subs:
  "subs (snd (get demoEnv 0 demoWorld)) 1 = [] \<and>
   subs (snd (get demoEnv 0 demoWorld)) 2 = [0] \<and>
   subs (snd (get demoEnv 0 demoWorld)) 3 = [0] \<and>
   arrs (snd (get demoEnv 0 demoWorld)) (deps (watchers (snd (get demoEnv 0 demoWorld)) 0)) = [2, 3]"
  by (simp add: get_def demo_defs Let_def pushTarget_def popTarget_def depend_def addDep_def
      addSub_def cleanupDeps_def removeSub_def)

text \<open>
  C2. After \<open>get()\<close> the confirmed dependencies of the watcher (\<open>deps\<close> and \<open>depIds\<close>) are
  exactly the Deps on which \<open>addDep\<close> was called during the run: the watcher is subscribed
  to each of them, it has been removed from the subscribers of every Dep confirmed by the
  previous run and not read by this one, and the current-run \<open>Set\<close> and array are the
  previous confirmed ones, swapped in and emptied. The state between two runs
  (\<open>watcher_ok\<close>) holds again afterwards, so the statement applies to every run.
\<close>

theorem get_confirms_exactly_the_reads:
  assumes "watcher_ok w s"
  shows "reconciled w (set (getReads E w s)) s (snd (get E w s))
         \<and> watcher_ok w (snd (get E w s))"
  using assms get_reconciled by blast

theorem get_confirms_exactly_the_reads_witness:
  "watcher_ok 0 demoWorld \<and>
   getReads demoEnv 0 demoWorld = [2, 3] \<and>
   reconciled 0 {2, 3} demoWorld (snd (get demoEnv 0 demoWorld)) \<and>
   subs (snd (get demoEnv 0 demoWorld)) 1 = [] \<and>
   subs (snd (get demoEnv 0 demoWorld)) 2 = [0] \<and>
   subs (snd (get demoEnv 0 demoWorld)) 3 = [0]"
proof -
  have h: "watcher_ok 0 demoWorld"
    by (auto simp add: watcher_ok_def demo_defs Let_def)
  have r: "getReads demoEnv 0 demoWorld = [2, 3]"
    by (simp add: getReads_def demo_defs Let_def pushTarget_def)
  from get_confirms_exactly_the_reads[OF h, of demoEnv]
  have "reconciled 0 {2, 3} demoWorld (snd (get demoEnv 0 demoWorld))"
    by (simp add: r insert_commute)
  then show ?thesis using h r demo_get_subs by simp
qed

text \<open>
  C4. For an active watcher whose evaluation returned \<open>v\<close>, \<open>run()\<close> does not call the callback
  exactly when \<open>v === this.value\<close>, \<open>v\<close> is not an object or array, and the watcher is not
  deep. In every other case the callback is called once, with \<open>v\<close> and the previous cached
  value, in a state whose cached value is already \<open>v\<close>; a user watcher's callback exception
  is reported, an internal watcher's is thrown on. (\<open>NaN === NaN\<close> is false, so a value that
  stays \<open>NaN\<close> fires.)
\<close>

theorem run_callback_condition:
  assumes "active (watchers s w)" and "get E w s = (Inr v, s1)"
  shows "(let W = watchers s w; old = wvalue W; r = run E w s; s' = snd r;
              s2 = s1\<lparr>watchers := (watchers s1)(w := (watchers s1 w)\<lparr>wvalue := v\<rparr>)\<rparr>;
              skip = (strict_eq v old \<and> \<not> isObject s1 v \<and> \<not> deep W) in
          (skip \<longrightarrow> r = (Inr (), s1) \<and> callbackCalls (trace s') = callbackCalls (trace s)) \<and>
          (\<not> skip \<longrightarrow>
             callbackCalls (trace s') = callbackCalls (trace s) @ [(w, v, old)] \<and>
             wvalue (watchers s2 w) = v \<and>
             fst r = (case callback E w v old s2 of
                        None \<Rightarrow> Inr ()
                      | Some e \<Rightarrow> if user W then Inr () else Inl e) \<and>
             trace s' = trace s1 @ CallbackCall w v old #
                (case callback E w v old s2 of
                   None \<Rightarrow> []
                 | Some e \<Rightarrow> if user W
                             then [HandleError e (vm W) (callbackLabel (expression W))] else []) \<and>
             wvalue (watchers s' w) = v))"
proof -
  have s1: "s1 = snd (get E w s)" using assms(2) by simp
  have f: "wvalue (watchers s1 w) = wvalue (watchers s w)" "deep (watchers s1 w) = deep (watchers s w)"
    "user (watchers s1 w) = user (watchers s w)" "vm (watchers s1 w) = vm (watchers s w)"
    "expression (watchers s1 w) = expression (watchers s w)"
    "trace s1 = trace s @ getReport E w s"
    by (simp_all add: s1 get_trace)
  show ?thesis
    using assms
    by (auto simp add: run_def Let_def f emit_def handleError_def split: option.splits)
qed

theorem run_callback_condition_witness:
  "active (watchers demoWorld 0) \<and>
   fst (get demoEnv 0 demoWorld) = Inr (JNum 5) \<and>
   callbackCalls (trace (snd (run demoEnv 0 demoWorld))) = [(0, JNum 5, JNum 1)] \<and>
   wvalue (watchers (snd (run demoEnv 0 demoWorld)) 0) = JNum 5 \<and>
   active (watchers (withWatcher (demoWatcher\<lparr>wvalue := JNum 5\<rparr>)) 0) \<and>
   fst (get demoEnv 0 (withWatcher (demoWatcher\<lparr>wvalue := JNum 5\<rparr>))) = Inr (JNum 5) \<and>
   run demoEnv 0 (withWatcher (demoWatcher\<lparr>wvalue := JNum 5\<rparr>)) =
     (Inr (), snd (get demoEnv 0 (withWatcher (demoWatcher\<lparr>wvalue := JNum 5\<rparr>)))) \<and>
   callbackCalls (trace (snd (run demoEnv 0 (withWatcher (demoWatcher\<lparr>wvalue := JNum 5\<rparr>))))) = []"
proof -
  let ?s2 = "withWatcher (demoWatcher\<lparr>wvalue := JNum 5\<rparr>)"
  have a1: "active (watchers demoWorld 0)" by (simp add: demo_defs)
  have a2: "active (watchers ?s2 0)" by (simp add: demo_defs withWatcher_def)
  have f1: "fst (get demoEnv 0 demoWorld) = Inr (JNum 5)"
    by (simp add: get_fst demo_defs)
  have f2: "fst (get demoEnv 0 ?s2) = Inr (JNum 5)"
    by (simp add: get_fst demo_defs)
  have g1: "get demoEnv 0 demoWorld = (Inr (JNum 5), snd (get demoEnv 0 demoWorld))"
    using f1 by (metis prod.collapse)
  have g2: "get demoEnv 0 ?s2 = (Inr (JNum 5), snd (get demoEnv 0 ?s2))"
    using f2 by (metis prod.collapse)
  have v: "wvalue (watchers demoWorld 0) = JNum 1" "deep (watchers demoWorld 0) = False"
    "wvalue (watchers ?s2 0) = JNum 5" "deep (watchers ?s2 0) = False"
    "trace demoWorld = []" "trace ?s2 = []"
    by (simp_all add: demo_defs withWatcher_def)
  have cb: "callback demoEnv w v' old s = None" for w v' old s
    by (simp add: demo_defs)
  have tg: "trace (snd (get demoEnv 0 demoWorld)) = []" "trace (snd (get demoEnv 0 ?s2)) = []"
    by (simp_all add: get_trace getReport_def v) (simp_all add: demo_defs)
  from run_callback_condition[OF a1 g1] run_callback_condition[OF a2 g2]
  show ?thesis using a1 a2 f1 f2 by (simp add: Let_def v cb tg isObject_def)
qed

text \<open>
  C5. \<open>update()\<close> does exactly one of three things: for a lazy watcher it sets \<open>dirty\<close> and
  nothing else (no evaluation, no callback, nothing queued); otherwise for a sync watcher it
  is \<open>run()\<close>, which neither touches \<open>dirty\<close> nor queues anything; otherwise it hands the
  watcher to \<open>queueWatcher\<close> and changes nothing else.
\<close>

theorem update_dispatches_by_flags:
  "(let W = watchers s w; r = update E w s; s' = snd r in
    (lazy W \<longrightarrow> r = (Inr (), s\<lparr>watchers := (watchers s)(w := W\<lparr>dirty := True\<rparr>)\<rparr>)) \<and>
    (\<not> lazy W \<and> sync W \<longrightarrow>
       r = run E w s \<and> dirty (watchers s' w) = dirty W \<and>
       queueCalls (trace s') = queueCalls (trace s)) \<and>
    (\<not> lazy W \<and> \<not> sync W \<longrightarrow>
       r = (Inr (), s\<lparr>trace := trace s @ [QueueWatcher w]\<rparr>)))"
  by (simp add: update_def Let_def run_no_queue_no_dirty queueWatcher_def emit_def)

theorem update_dispatches_by_flags_witness:
  "lazy (watchers (withWatcher (demoWatcher\<lparr>lazy := True\<rparr>)) 0) \<and>
   dirty (watchers (snd (update demoEnv 0 (withWatcher (demoWatcher\<lparr>lazy := True\<rparr>)))) 0) \<and>
   trace (snd (update demoEnv 0 (withWatcher (demoWatcher\<lparr>lazy := True\<rparr>)))) = [] \<and>
   \<not> lazy (watchers demoWorld 0) \<and> sync (watchers demoWorld 0) \<and>
   update demoEnv 0 demoWorld = run demoEnv 0 demoWorld \<and>
   trace (snd (update demoEnv 0 demoWorld)) = [CallbackCall 0 (JNum 5) (JNum 1)] \<and>
   \<not> dirty (watchers (snd (update demoEnv 0 demoWorld)) 0) \<and>
   \<not> lazy (watchers (withWatcher (demoWatcher\<lparr>sync := False\<rparr>)) 0) \<and>
   \<not> sync (watchers (withWatcher (demoWatcher\<lparr>sync := False\<rparr>)) 0) \<and>
   trace (snd (update demoEnv 0 (withWatcher (demoWatcher\<lparr>sync := False\<rparr>)))) = [QueueWatcher 0] \<and>
   \<not> dirty (watchers (snd (update demoEnv 0 (withWatcher (demoWatcher\<lparr>sync := False\<rparr>)))) 0)"
proof -
  let ?l = "withWatcher (demoWatcher\<lparr>lazy := True\<rparr>)"
  let ?q = "withWatcher (demoWatcher\<lparr>sync := False\<rparr>)"
  have fl: "lazy (watchers ?l 0)" "trace ?l = []"
    "\<not> lazy (watchers demoWorld 0)" "sync (watchers demoWorld 0)" "\<not> dirty (watchers demoWorld 0)"
    "\<not> lazy (watchers ?q 0)" "\<not> sync (watchers ?q 0)" "trace ?q = []" "\<not> dirty (watchers ?q 0)"
    by (simp_all add: demo_defs withWatcher_def)
  have tr: "trace (snd (run demoEnv 0 demoWorld)) = [CallbackCall 0 (JNum 5) (JNum 1)]"
    by (simp add: eval_defs demo_defs)
  from update_dispatches_by_flags[of ?l 0 demoEnv] update_dispatches_by_flags[of demoWorld 0 demoEnv]
    update_dispatches_by_flags[of ?q 0 demoEnv]
  show ?thesis using tr by (simp add: Let_def fl run_no_queue_no_dirty)
qed

text \<open>
  C6. When the evaluator throws \<open>e\<close> during \<open>get()\<close>: for a user watcher the exception is
  reported by \<open>handleError\<close>, with the instance and the label \<open>getter for watcher\<close>
  followed by the watcher's expression between double quotes, and \<open>get\<close> returns
  (\<open>undefined\<close>); for an internal watcher \<open>e\<close> is thrown to the caller and nothing is
  reported. On both paths the target stack is back to what it was and the dependencies are
  reconciled.
\<close>

theorem get_handles_evaluator_failure:
  assumes "watcher_ok w s" and "snd (evaluator E w (pushTarget w s)) = Inl e"
  shows "(let W = watchers s w; r = get E w s; s' = snd r in
          (user W \<longrightarrow> fst r = Inr JUndefined \<and>
             trace s' = trace s @
               [HandleError e (vm W)
                  (''getter for watcher '' @ [CHR 0x22] @ expression W @ [CHR 0x22])]) \<and>
          (\<not> user W \<longrightarrow> fst r = Inl e \<and> trace s' = trace s) \<and>
          targetStack s' = targetStack s \<and>
          reconciled w (set (getReads E w s)) s s')"
  using assms get_reconciled(1)[of w s E]
  by (simp add: Let_def get_fst get_trace get_targetStack getReport_def getterLabel_def)

theorem get_handles_evaluator_failure_witness:
  "watcher_ok 0 demoWorld \<and>
   snd (evaluator throwingEnv 0 (pushTarget 0 demoWorld)) = Inl (JStr ''boom'') \<and>
   user (watchers demoWorld 0) \<and>
   fst (get throwingEnv 0 demoWorld) = Inr JUndefined \<and>
   trace (snd (get throwingEnv 0 demoWorld)) =
     [HandleError (JStr ''boom'') 0 (''getter for watcher '' @ [CHR 0x22] @ ''a.b'' @ [CHR 0x22])] \<and>
   targetStack (snd (get throwingEnv 0 demoWorld)) = [] \<and>
   reconciled 0 {3} demoWorld (snd (get throwingEnv 0 demoWorld)) \<and>
   watcher_ok 0 (withWatcher (demoWatcher\<lparr>user := False\<rparr>)) \<and>
   fst (get throwingEnv 0 (withWatcher (demoWatcher\<lparr>user := False\<rparr>))) = Inl (JStr ''boom'') \<and>
   trace (snd (get throwingEnv 0 (withWatcher (demoWatcher\<lparr>user := False\<rparr>)))) = [] \<and>
   targetStack (snd (get throwingEnv 0 (withWatcher (demoWatcher\<lparr>user := False\<rparr>)))) = [] \<and>
   reconciled 0 {3} (withWatcher (demoWatcher\<lparr>user := False\<rparr>))
     (snd (get throwingEnv 0 (withWatcher (demoWatcher\<lparr>user := False\<rparr>))))"
proof -
  let ?s2 = "withWatcher (demoWatcher\<lparr>user := False\<rparr>)"
  have h1: "watcher_ok 0 demoWorld"
    by (auto simp add: watcher_ok_def demo_defs Let_def)
  have h2: "watcher_ok 0 ?s2"
    by (auto simp add: watcher_ok_def demo_defs withWatcher_def Let_def)
  have e1: "snd (evaluator throwingEnv 0 (pushTarget 0 demoWorld)) = Inl (JStr ''boom'')"
    by (simp add: demo_defs)
  have e2: "snd (evaluator throwingEnv 0 (pushTarget 0 ?s2)) = Inl (JStr ''boom'')"
    by (simp add: demo_defs)
  have u1: "user (watchers demoWorld 0)" "vm (watchers demoWorld 0) = 0"
    "expression (watchers demoWorld 0) = ''a.b''" "trace demoWorld = []" "targetStack demoWorld = []"
    by (simp_all add: demo_defs)
  have u2: "\<not> user (watchers ?s2 0)" "trace ?s2 = []" "targetStack ?s2 = []"
    by (simp_all add: demo_defs withWatcher_def)
  have r1: "getReads throwingEnv 0 demoWorld = [3]"
    by (simp add: getReads_def demo_defs Let_def pushTarget_def)
  have r2: "getReads throwingEnv 0 ?s2 = [3]"
    by (simp add: getReads_def demo_defs withWatcher_def Let_def pushTarget_def)
  from get_handles_evaluator_failure[OF h1 e1] get_handles_evaluator_failure[OF h2 e2]
  show ?thesis
    using h1 h2 e1 by (simp add: Let_def u1 u2 r1 r2)
qed

text \<open>
  C9. \<open>teardown()\<close> of an active watcher removes it from the subscribers of every Dep in
  \<open>deps\<close>; afterwards the watcher is inactive; a second \<open>teardown()\<close> changes nothing; and
  \<open>run()\<close> on the torn-down watcher returns at once, leaving the state (and so the trace of
  callback calls) as it is.
\<close>

theorem teardown_unsubscribes:
  "(let W = watchers s w; s' = teardown E w s in
    (active W \<longrightarrow> (\<forall>d \<in> set (arrs s (deps W)). w \<notin> set (subs s' d))) \<and>
    \<not> active (watchers s' w) \<and>
    teardown E w s' = s' \<and>
    run E w s' = (Inr (), s'))"
  by (simp add: teardown_def Let_def run_def fold_removeSub_subs)

theorem teardown_unsubscribes_witness:
  "active (watchers demoWorld 0) \<and>
   arrs demoWorld (deps (watchers demoWorld 0)) = [1, 2] \<and>
   subs demoWorld 1 = [0] \<and> subs demoWorld 2 = [0] \<and>
   subs (teardown demoEnv 0 demoWorld) 1 = [] \<and>
   subs (teardown demoEnv 0 demoWorld) 2 = [] \<and>
   \<not> active (watchers (teardown demoEnv 0 demoWorld) 0) \<and>
   teardown demoEnv 0 (teardown demoEnv 0 demoWorld) = teardown demoEnv 0 demoWorld \<and>
   run demoEnv 0 (teardown demoEnv 0 demoWorld) = (Inr (), teardown demoEnv 0 demoWorld)"
proof -
  have a: "active (watchers demoWorld 0)" "arrs demoWorld (deps (watchers demoWorld 0)) = [1, 2]"
    "subs demoWorld 1 = [0]" "subs demoWorld 2 = [0]"
    by (simp_all add: demo_defs)
  have s: "subs (teardown demoEnv 0 demoWorld) 1 = []" "subs (teardown demoEnv 0 demoWorld) 2 = []"
    by (simp_all add: eval_defs demo_defs)
  from teardown_unsubscribes[of demoWorld 0 demoEnv]
  show ?thesis using a s by (simp add: Let_def)
qed

section \<open>The watcher leaves the heap alone\<close>

lemma addDep_heap [simp]:
  "closures (addDep w d s) = closures s"
  "objs (addDep w d s) = objs s"
  "observers (addDep w d s) = observers s"
  "nextClosure (addDep w d s) = nextClosure s"
  "nextObserver (addDep w d s) = nextObserver s"
  "depUid (addDep w d s) = depUid s"
  "shouldObserve (addDep w d s) = shouldObserve s"
  by (simp_all add: addDep_def addSub_def Let_def)

lemma fold_addDep_heap [simp]:
  "closures (fold (addDep w) ds s) = closures s"
  "objs (fold (addDep w) ds s) = objs s"
  "observers (fold (addDep w) ds s) = observers s"
  "nextClosure (fold (addDep w) ds s) = nextClosure s"
  "nextObserver (fold (addDep w) ds s) = nextObserver s"
  "depUid (fold (addDep w) ds s) = depUid s"
  "shouldObserve (fold (addDep w) ds s) = shouldObserve s"
  by (induction ds arbitrary: s; simp)+

lemma prune_heap [simp]:
  "closures (prune w a ds s) = closures s"
  "objs (prune w a ds s) = objs s"
  "observers (prune w a ds s) = observers s"
  "nextClosure (prune w a ds s) = nextClosure s"
  "nextObserver (prune w a ds s) = nextObserver s"
  "depUid (prune w a ds s) = depUid s"
  "shouldObserve (prune w a ds s) = shouldObserve s"
  by (induction ds arbitrary: s; simp add: prune_def removeSub_def)+

lemma get_heap [simp]:
  "closures (snd (get E w s)) = closures s"
  "objs (snd (get E w s)) = objs s"
  "observers (snd (get E w s)) = observers s"
  "nextClosure (snd (get E w s)) = nextClosure s"
  "nextObserver (snd (get E w s)) = nextObserver s"
  "depUid (snd (get E w s)) = depUid s"
  "shouldObserve (snd (get E w s)) = shouldObserve s"
  by (simp_all add: get_collected collected_eq cleanupDeps_prune Let_def)

lemma notifyCalls_append [simp]: "notifyCalls (xs @ ys) = notifyCalls xs @ notifyCalls ys"
  by (induction xs rule: notifyCalls.induct) simp_all

lemma notifyCalls_getReport [simp]: "notifyCalls (getReport E w s) = []"
  by (simp add: getReport_def Let_def split: sum.splits)

lemma heap_kept_refl [simp]: "heap_kept s s"
  by (simp add: heap_kept_def)







lemma level_Suc_callees [simp]:
  "observeC (level (Suc n) E) = observe_body (level n E) E"
  "defineReactiveC (level (Suc n) E) = defineReactive_body (level n E) E"
  "reactiveGetterC (level (Suc n) E) = reactiveGetter_body (level n E) E"
  "reactiveSetterC (level (Suc n) E) = reactiveSetter_body (level n E) E"
  "dependArrayC (level (Suc n) E) = dependArray_body (level n E)"
  by simp_all

section \<open>What observing leaves alone\<close>

lemma quiet_refl [simp]: "quiet s s"
  by (simp add: quiet_def)



















section \<open>Observing plain data returns\<close>

lemma ext_refl [simp]: "ext E X s s"
  by (simp add: ext_def)






















section \<open>Claims about the observer\<close>

lemmas obs_defs =
  keyWorld_def withClosure_def rootWorld_def withObj_def dataWorld_def sealedWorld_def

lemmas obs_eval =
  observe_def observe_body_def defineReactive_def defineReactive_body_def readInitial_def
  installAccessors_def reactiveSetter_def
  reactiveSetter_body_def currentValue_def callCustomSetter_def storeNew_def wrapChild_def
  set_js_def set_body_def writeProp_def newDep_def isObject_def instanceofVNode_def keyIn_def
  notify_def warn_def




text \<open>
  C3. \<open>observe\<close> returns nothing for a value that is not an object and for a \<open>VNode\<close>
  instance. For any other value that carries an Observer it returns that Observer: no
  Observer is created, the value is untouched, only \<open>vmCount\<close> is incremented when
  \<open>asRootData\<close> is set, and a further \<open>observe\<close> returns the same Observer again.
\<close>

theorem observe_returns_existing_observer:
  "(\<not> isObject s v \<or> instanceofVNode s v \<longrightarrow> observe (Suc n) E v r s = Some (Inr None, s)) \<and>
   (isObject s v \<and> \<not> instanceofVNode s v \<and> v = JObj a \<and> ob (objs s a) = Some k \<longrightarrow>
      (let s' = (if r then s\<lparr>observers := (observers s)
                          (k := (observers s k)\<lparr>vmCount := Suc (vmCount (observers s k))\<rparr>)\<rparr>
                 else s)
       in observe (Suc n) E v r s = Some (Inr (Some k), s') \<and>
          nextObserver s' = nextObserver s \<and> objs s' = objs s \<and>
          ob_value (observers s' k) = ob_value (observers s k) \<and>
          ob_dep (observers s' k) = ob_dep (observers s k) \<and>
          observe (Suc m) E v False s' = Some (Inr (Some k), s')))"
  by (auto simp add: observe_def observe_body_def Let_def isObject_def instanceofVNode_def
      split: jsval.splits)

theorem observe_returns_existing_observer_witness:
  "\<not> isObject demoWorld (JNum 3) \<and>
   observe 1 demoEnv (JNum 3) False demoWorld = Some (Inr None, demoWorld) \<and>
   instanceofVNode (withObj (demoObj\<lparr>isVNode := True\<rparr>)) (JObj 0) \<and>
   observe 1 demoEnv (JObj 0) False (withObj (demoObj\<lparr>isVNode := True\<rparr>))
     = Some (Inr None, withObj (demoObj\<lparr>isVNode := True\<rparr>)) \<and>
   isObject rootWorld (JObj 0) \<and> \<not> instanceofVNode rootWorld (JObj 0) \<and>
   ob (objs rootWorld 0) = Some 0 \<and>
   observe 1 demoEnv (JObj 0) False rootWorld = Some (Inr (Some 0), rootWorld) \<and>
   observe 1 demoEnv (JObj 0) True rootWorld
     = Some (Inr (Some 0),
         rootWorld\<lparr>observers := (observers rootWorld)
           (0 := (observers rootWorld 0)\<lparr>vmCount := Suc (Suc 0)\<rparr>)\<rparr>)"
proof -
  let ?v = "withObj (demoObj\<lparr>isVNode := True\<rparr>)"
  have a: "\<not> isObject demoWorld (JNum 3)" by (simp add: isObject_def)
  have b: "instanceofVNode ?v (JObj 0)" by (simp add: instanceofVNode_def obs_defs demo_defs)
  have c: "isObject rootWorld (JObj 0)" "\<not> instanceofVNode rootWorld (JObj 0)"
    "ob (objs rootWorld 0) = Some 0" "vmCount (observers rootWorld 0) = 1"
    by (simp_all add: isObject_def instanceofVNode_def obs_defs demo_defs)
  from observe_returns_existing_observer[of demoWorld "JNum 3" 0 demoEnv False 0 0 0]
    observe_returns_existing_observer[of ?v "JObj 0" 0 demoEnv False 0 0 0]
    observe_returns_existing_observer[of rootWorld "JObj 0" 0 demoEnv False 0 0 0]
    observe_returns_existing_observer[of rootWorld "JObj 0" 0 demoEnv True 0 0 0]
  show ?thesis using a b c by (simp add: Let_def)
qed

text \<open>
  C7, as the code has it. For a target that is a Vue instance or whose Observer has a nonzero
  \<open>vmCount\<close>, and a key that takes neither the array branch nor the existing-key branch,
  \<open>set\<close> returns \<open>val\<close> without throwing, warning outside production builds, and leaves the
  target as it was: the value is not stored and no Dep is notified.
\<close>

theorem set_refuses_on_root_data:
  assumes "isVue (objs s a) \<or> (\<exists>k. ob (objs s a) = Some k \<and> vmCount (observers s k) \<noteq> 0)"
    and "\<not> (keyIn E (objs s a) key \<and> \<not> inObjectPrototype E key)"
    and "cls (objs s a) = ClsArray \<longrightarrow> arrayIndex E key = None"
  shows "(let s' = (if production E then s else warn avoidAddingWarning s) in
          set_js n E (JObj a) key val s = Some (Inr val, s') \<and>
          objs s' = objs s \<and> closures s' = closures s \<and> observers s' = observers s \<and>
          subs s' = subs s \<and> depUid s' = depUid s \<and>
          trace s' = trace s @ (if production E then [] else [Warn avoidAddingWarning]))"
  using assms
  by (auto simp add: set_js_def set_body_def Let_def warn_def emit_def split: option.splits)

theorem set_refuses_on_root_data_witness:
  "(\<exists>k. ob (objs rootWorld 0) = Some k \<and> vmCount (observers rootWorld k) \<noteq> 0) \<and>
   \<not> keyIn demoEnv (objs rootWorld 0) ''x'' \<and>
   cls (objs rootWorld 0) \<noteq> ClsArray \<and>
   set_js 1 demoEnv (JObj 0) ''x'' (JNum 1) rootWorld
     = Some (Inr (JNum 1), warn avoidAddingWarning rootWorld) \<and>
   props (objs (warn avoidAddingWarning rootWorld) 0) = [] \<and>
   trace (warn avoidAddingWarning rootWorld) = [Warn avoidAddingWarning]"
proof -
  have a: "isVue (objs rootWorld 0) \<or> (\<exists>k. ob (objs rootWorld 0) = Some k \<and> vmCount (observers rootWorld k) \<noteq> 0)"
    by (simp add: obs_defs demo_defs)
  have b: "\<not> (keyIn demoEnv (objs rootWorld 0) ''x'' \<and> \<not> inObjectPrototype demoEnv ''x'')"
    by (simp add: keyIn_def obs_defs demo_defs)
  have c: "cls (objs rootWorld 0) = ClsArray \<longrightarrow> arrayIndex demoEnv ''x'' = None"
    by (simp add: obs_defs demo_defs)
  have d: "\<not> production demoEnv" "props (objs rootWorld 0) = []" "trace rootWorld = []"
    "\<not> keyIn demoEnv (objs rootWorld 0) ''x''" "cls (objs rootWorld 0) \<noteq> ClsArray"
    "ob (objs rootWorld 0) = Some 0" "vmCount (observers rootWorld 0) = 1"
    by (simp_all add: keyIn_def obs_defs demo_defs)
  from set_refuses_on_root_data[OF a b c, of 1 "JNum 1"]
  show ?thesis using d by (simp add: Let_def)
qed

text \<open>The claim as stated fails: after the refused \<open>set\<close> the target has no such key.\<close>

theorem set_refuses_on_root_data_counterexample:
  "set_js 1 demoEnv (JObj 0) ''x'' (JNum 1) rootWorld
     = Some (Inr (JNum 1), warn avoidAddingWarning rootWorld) \<and>
   map_of (props (objs (warn avoidAddingWarning rootWorld) 0)) ''x'' = None"
  by (simp add: obs_eval obs_defs demo_defs Let_def emit_def)

text \<open>An original getter that is a \<open>reactiveGetter\<close> comes with its \<open>reactiveSetter\<close>: a
  property with a getter and no setter has a getter defined outside the observer.\<close>

lemma getter_only_is_user_getter:
  "getterOf p = Some g \<Longrightarrow> setterOf p = None \<Longrightarrow> \<exists>f. g = UserGetter f"
  by (cases p rule: getterOf.cases) auto

text \<open>
  C8. For a key whose original property has a getter and no setter, a write through
  \<open>reactiveSetter\<close> returns without storing anything and without a call of \<open>dep.notify\<close>;
  closures, objects, observers, subscribers and watchers are as before. The one thing that
  can happen is the call of \<open>customSetter\<close>, outside production builds, when the value
  differs.
\<close>

theorem reactiveSetter_ignores_getter_only:
  assumes "c_getter (closures s c) = Some (UserGetter f)" and "c_setter (closures s c) = None"
  shows "(let val = origGetter E f s;
              same = (strict_eq newVal val \<or> (\<not> strict_eq newVal newVal \<and> \<not> strict_eq val val));
              s' = (if same then s else callCustomSetter E c s) in
          reactiveSetter (Suc n) E c newVal s = Some (Inr (), s') \<and>
          closures s' = closures s \<and> objs s' = objs s \<and> observers s' = observers s \<and>
          subs s' = subs s \<and> watchers s' = watchers s \<and>
          notifyCalls (trace s') = notifyCalls (trace s) \<and>
          trace s' = trace s @
             (case c_customSetter (closures s c) of
                Some g \<Rightarrow> if \<not> same \<and> \<not> production E then [CustomSetterCall g] else []
              | None \<Rightarrow> []))"
  using assms
  by (auto simp add: reactiveSetter_def reactiveSetter_body_def currentValue_def Let_def
      callCustomSetter_def emit_def split: option.splits)

theorem reactiveSetter_ignores_getter_only_witness:
  "c_getter (closures (withClosure (demoClosure\<lparr>c_getter := Some (UserGetter 0), c_customSetter := Some 4\<rparr>)) 0)
     = Some (UserGetter 0) \<and>
   c_setter (closures (withClosure (demoClosure\<lparr>c_getter := Some (UserGetter 0), c_customSetter := Some 4\<rparr>)) 0)
     = None \<and>
   reactiveSetter 1 demoEnv 0 (JNum 2)
       (withClosure (demoClosure\<lparr>c_getter := Some (UserGetter 0), c_customSetter := Some 4\<rparr>))
     = Some (Inr (), emit (CustomSetterCall 4)
         (withClosure (demoClosure\<lparr>c_getter := Some (UserGetter 0), c_customSetter := Some 4\<rparr>))) \<and>
   reactiveSetter 1 demoEnv 0 JUndefined
       (withClosure (demoClosure\<lparr>c_getter := Some (UserGetter 0), c_customSetter := Some 4\<rparr>))
     = Some (Inr (),
         withClosure (demoClosure\<lparr>c_getter := Some (UserGetter 0), c_customSetter := Some 4\<rparr>))"
proof -
  let ?s = "withClosure (demoClosure\<lparr>c_getter := Some (UserGetter 0), c_customSetter := Some 4\<rparr>)"
  have a: "c_getter (closures ?s 0) = Some (UserGetter 0)" by (simp add: obs_defs demo_defs)
  have b: "c_setter (closures ?s 0) = None" by (simp add: obs_defs demo_defs)
  have c: "origGetter demoEnv 0 ?s = JUndefined" "\<not> production demoEnv"
    "c_customSetter (closures ?s 0) = Some 4"
    by (simp_all add: obs_defs demo_defs)
  from reactiveSetter_ignores_getter_only[OF a b, of demoEnv "JNum 2" 0]
    reactiveSetter_ignores_getter_only[OF a b, of demoEnv JUndefined 0]
  show ?thesis using a b by (simp add: Let_def c callCustomSetter_def)
qed




end
